theory Spec2Isabelle
  imports Complex_Main "HOL-Library.Word"
begin

section \<open>The binary output reader of SWMM (outputAPI.c) and its date helper (datetime.c)\<close>

text \<open>
  The development embeds the C sources function by function. The data model is the one
  the sources are written for (\<^verbatim>\<open>__declspec(dllexport) __cdecl\<close>, \<^verbatim>\<open>INT4 int\<close>, a
  \<^verbatim>\<open>long\<close> that is filled by a four byte read): \<^verbatim>\<open>int\<close>, \<^verbatim>\<open>long\<close> and
  \<^verbatim>\<open>size_t\<close> are 32 bits wide, \<^verbatim>\<open>off64_t\<close> is 64 bits wide, the host is little-endian.
  C integers are HOL integers, and every operation whose operands come from the file or
  from the caller is followed by the two's-complement wrap of its C type. (Signed overflow
  is undefined in C; the wrap is what the targeted compilers produce, and the theorems
  that depend on exact arithmetic say so in a hypothesis.) Enumeration arguments are
  passed as \<^verbatim>\<open>int\<close>.
\<close>

subsection \<open>C integers\<close>

definition wrap32 :: "int \<Rightarrow> int" where
  "wrap32 x = (x + 2 ^ 31) mod 2 ^ 32 - 2 ^ 31"

definition wrap64 :: "int \<Rightarrow> int" where
  "wrap64 x = (x + 2 ^ 63) mod 2 ^ 64 - 2 ^ 63"

definition in_int32 :: "int \<Rightarrow> bool" where
  "in_int32 x \<longleftrightarrow> - (2 ^ 31) \<le> x \<and> x < 2 ^ 31"

definition in_int64 :: "int \<Rightarrow> bool" where
  "in_int64 x \<longleftrightarrow> - (2 ^ 63) \<le> x \<and> x < 2 ^ 63"

definition add32 :: "int \<Rightarrow> int \<Rightarrow> int" where
  "add32 a b = wrap32 (a + b)"

definition sub32 :: "int \<Rightarrow> int \<Rightarrow> int" where
  "sub32 a b = wrap32 (a - b)"

definition mul32 :: "int \<Rightarrow> int \<Rightarrow> int" where
  "mul32 a b = wrap32 (a * b)"

definition add64 :: "int \<Rightarrow> int \<Rightarrow> int" where
  "add64 a b = wrap64 (a + b)"

definition sub64 :: "int \<Rightarrow> int \<Rightarrow> int" where
  "sub64 a b = wrap64 (a - b)"

definition mul64 :: "int \<Rightarrow> int \<Rightarrow> int" where
  "mul64 a b = wrap64 (a * b)"

text \<open>Conversion of an \<^verbatim>\<open>int\<close> or \<^verbatim>\<open>long\<close> to \<^verbatim>\<open>size_t\<close>: a negative count becomes a
  count of at least \<open>2 ^ 31\<close>.\<close>

definition to_size_t :: "int \<Rightarrow> nat" where
  "to_size_t x = nat (x mod 2 ^ 32)"

text \<open>C division truncates towards zero; \<^verbatim>\<open>%\<close> is its remainder.\<close>

definition cdiv :: "int \<Rightarrow> int \<Rightarrow> int" where
  "cdiv a b = sgn a * sgn b * (\<bar>a\<bar> div \<bar>b\<bar>)"

definition cmod :: "int \<Rightarrow> int \<Rightarrow> int" where
  "cmod a b = a - b * cdiv a b"

subsection \<open>Bytes, records and the stream\<close>

type_synonym byte = "8 word"

text \<open>A \<^verbatim>\<open>float\<close> or \<^verbatim>\<open>double\<close> object is its object representation: the bytes that
  \<^verbatim>\<open>fread\<close> copied into it. A float variable or array slot whose read came up short holds
  no defined value: \<open>None\<close>.\<close>

type_synonym real4 = "byte list"

abbreviation RECORDSIZE :: int where "RECORDSIZE \<equiv> 4"
abbreviation DATESIZE :: int where "DATESIZE \<equiv> 8"

definition le_uint :: "byte list \<Rightarrow> int" where
  "le_uint bs = foldr (\<lambda>b acc. uint b + 256 * acc) bs 0"

definition int4_of :: "byte list \<Rightarrow> int" where
  "int4_of bs = wrap32 (le_uint bs)"

text \<open>A four byte read into the low half of an eight byte \<^verbatim>\<open>off64_t\<close> field (the reads of
  \<^verbatim>\<open>validateFile\<close>): the high half keeps what the field held before.\<close>

definition store_low32 :: "int \<Rightarrow> byte list \<Rightarrow> int" where
  "store_low32 old bs = (old div 2 ^ 32) * 2 ^ 32 + le_uint bs mod 2 ^ 32"

record stream =
  content :: "byte list"
  fpos :: nat

datatype whence = SEEK_SET | SEEK_CUR | SEEK_END

text \<open>\<^verbatim>\<open>fseeko64\<close>: a seek to a negative position fails and leaves the position where it
  was. The sources never look at the return value, so the model returns the stream only.\<close>

definition fseeko64 :: "stream \<Rightarrow> int \<Rightarrow> whence \<Rightarrow> stream" where
  "fseeko64 f offset w =
     (let base = (case w of SEEK_SET \<Rightarrow> 0
                          | SEEK_CUR \<Rightarrow> int (fpos f)
                          | SEEK_END \<Rightarrow> int (length (content f)));
          p = base + offset
      in if p < 0 then f else f\<lparr>fpos := nat p\<rparr>)"

text \<open>\<^verbatim>\<open>fread(ptr, size, n, f)\<close>: the complete items that the rest of the file holds, at
  most \<open>n\<close>; whether a trailing partial item was transferred; the stream after the bytes
  consumed.\<close>

definition fread :: "stream \<Rightarrow> nat \<Rightarrow> nat \<Rightarrow> byte list list \<times> bool \<times> stream" where
  "fread f sz n =
     (let avail = drop (fpos f) (content f);
          k = min n (length avail div sz)
      in (map (\<lambda>j. take sz (drop (j * sz) avail)) [0..<k],
          k < n \<and> k * sz < length avail,
          f\<lparr>fpos := fpos f + min (n * sz) (length avail)\<rparr>))"

text \<open>One record into a scalar variable: \<open>None\<close> when the read came up short.\<close>

definition fread1 :: "stream \<Rightarrow> nat \<Rightarrow> byte list option \<times> stream" where
  "fread1 f sz =
     (case fread f sz 1 of
        ([x], _, f') \<Rightarrow> (Some x, f')
      | (_, _, f') \<Rightarrow> (None, f'))"

subsection \<open>The handle\<close>

record idEntry =
  IDname :: "byte list option"
  length_id :: int

text \<open>A \<^verbatim>\<open>double\<close> of the handle is either the eight bytes read from the file or the
  conversion of an integer constant (\<^verbatim>\<open>*time = -1\<close>).\<close>

datatype double = DoubleBytes "byte list" | DoubleOfInt int

record SMOutputAPI =
  name :: string
  file' :: "stream option"
  elementNames :: "idEntry list option"
  Nperiods :: int
  FlowUnits :: int
  Nsubcatch :: int
  Nnodes :: int
  Nlinks :: int
  Npolluts :: int
  SubcatchVars :: int
  NodeVars :: int
  LinkVars :: int
  SysVars :: int
  StartDate :: double
  ReportStep :: int
  IDPos :: int
  ObjPropPos :: int
  ResultsPos :: int
  BytesPerPeriod :: int

text \<open>What the model does where the C program has no defined behaviour.\<close>

datatype fault =
    NullStream    \<comment> \<open>\<^verbatim>\<open>fseeko64\<close> or \<^verbatim>\<open>fread\<close> called with a null \<^verbatim>\<open>FILE*\<close>\<close>
  | ShortRead     \<comment> \<open>an unchecked read came up short and left its variable without a value\<close>
  | NullBuffer    \<comment> \<open>data transferred through a null pointer\<close>
  | BufferOverrun \<comment> \<open>a store outside the array it is meant for\<close>

definition bindF :: "fault + 'a \<Rightarrow> ('a \<Rightarrow> fault + 'b) \<Rightarrow> fault + 'b" where
  "bindF m k = (case m of Inl e \<Rightarrow> Inl e | Inr x \<Rightarrow> k x)"

subsection \<open>Memory that the caller or the allocator provides\<close>

text \<open>An out-pointer is either null or the caller's array: a list as long as the array
  has room. The functions never learn that length; a store at an index outside the list
  is a store outside the array, which the model reports as a fault.\<close>

type_synonym float_array = "real4 option list"

definition store :: "'a list \<Rightarrow> int \<Rightarrow> 'a \<Rightarrow> fault + 'a list" where
  "store out k v = (if 0 \<le> k \<and> nat k < length out then Inr (out[nat k := v]) else Inl BufferOverrun)"

text \<open>\<^verbatim>\<open>calloc(n, sz)\<close>: null when the byte count does not fit \<^verbatim>\<open>size_t\<close> or the allocator
  (the parameter \<open>heap\<close>, asked for that many bytes) refuses; else \<open>n\<close> zeroed elements.\<close>

type_synonym heap = "nat \<Rightarrow> bool"

definition calloc :: "heap \<Rightarrow> nat \<Rightarrow> nat \<Rightarrow> 'a \<Rightarrow> 'a list option" where
  "calloc heap n sz zero =
     (if n * sz < 2 ^ 32 \<and> heap (n * sz) then Some (replicate n zero) else None)"

definition zero_float :: real4 where
  "zero_float = [0, 0, 0, 0]"

definition MEMCHECK :: "'a option \<Rightarrow> int" where
  "MEMCHECK x = (if x = None then 411 else 0)"

text \<open>\<^verbatim>\<open>strncpy(dst, src, n)\<close> on a non-null destination: exactly \<open>n\<close> characters are
  stored, the source up to its end and NUL after it; with \<open>n\<close> beyond the end of the
  destination the stores leave the array.\<close>

definition strncpy :: "'a \<Rightarrow> 'a list \<Rightarrow> 'a list \<Rightarrow> nat \<Rightarrow> fault + 'a list" where
  "strncpy nul dst src n =
     (if length dst < n then Inl BufferOverrun
      else Inr (take n (src @ replicate n nul) @ drop n dst))"

text \<open>\<^verbatim>\<open>fread(out, RECORDSIZE, n, f)\<close> into a float array: the complete records fill the
  slots from 0, a trailing partial record leaves its slot without a defined value; more
  records than the array has slots are stored outside it.\<close>

definition fread_array ::
  "stream \<Rightarrow> int \<Rightarrow> float_array option \<Rightarrow> fault + (float_array option \<times> stream)" where
  "fread_array f n out =
     (case fread f 4 (to_size_t n) of
        (items, partial, f') \<Rightarrow>
          (let written = map Some items @ (if partial then [None] else [])
           in case out of
                None \<Rightarrow> if written = [] then Inr (None, f') else Inl NullBuffer
              | Some a \<Rightarrow>
                  if length a < length written then Inl BufferOverrun
                  else Inr (Some (written @ drop (length written) a), f')))"

subsection \<open>Opening and closing\<close>

abbreviation MAXFILENAME :: nat where "MAXFILENAME \<equiv> 259"

text \<open>\<^verbatim>\<open>SMO_close\<close> returns its code and the handle that is left: none once it was
  freed.\<close>

definition SMO_close :: "SMOutputAPI \<Rightarrow> int \<times> SMOutputAPI option" where
  "SMO_close smoapi =
     (if file' smoapi = None then (412, Some smoapi) else (0, None))"

text \<open>A read of one record that the code does not check.\<close>

definition fread_rec :: "stream \<Rightarrow> nat \<Rightarrow> fault + (byte list \<times> stream)" where
  "fread_rec f sz =
     (case fread1 f sz of
        (None, f') \<Rightarrow> Inl ShortRead
      | (Some bs, f') \<Rightarrow> Inr (bs, f'))"

definition validateFile :: "SMOutputAPI \<Rightarrow> fault + (int \<times> SMOutputAPI)" where
  "validateFile smoapi =
     (case file' smoapi of
        None \<Rightarrow> Inl NullStream
      | Some f \<Rightarrow>
         (let f = fseeko64 f (- 6 * RECORDSIZE) SEEK_END in
          bindF (fread_rec f 4) (\<lambda>(b, f). let smoapi = smoapi\<lparr>IDPos := store_low32 (IDPos smoapi) b\<rparr> in
          bindF (fread_rec f 4) (\<lambda>(b, f). let smoapi = smoapi\<lparr>ObjPropPos := store_low32 (ObjPropPos smoapi) b\<rparr> in
          bindF (fread_rec f 4) (\<lambda>(b, f). let smoapi = smoapi\<lparr>ResultsPos := store_low32 (ResultsPos smoapi) b\<rparr> in
          bindF (fread_rec f 4) (\<lambda>(b, f). let smoapi = smoapi\<lparr>Nperiods := int4_of b\<rparr> in
          bindF (fread_rec f 4) (\<lambda>(b, f). let errcode = int4_of b in
          bindF (fread_rec f 4) (\<lambda>(b, f). let magic2 = int4_of b;
                                              f = fseeko64 f 0 SEEK_SET in
          bindF (fread_rec f 4) (\<lambda>(b, f). let magic1 = int4_of b;
                                              errorcode =
                                                (if magic1 \<noteq> magic2 then 435
                                                 else if Nperiods smoapi \<le> 0 then 436
                                                 else if errcode \<noteq> 0 then 435
                                                 else 0)
            in Inr (errorcode, smoapi\<lparr>file' := Some f\<rparr>))))))))))"

text \<open>The \<^verbatim>\<open>else\<close> branch of \<^verbatim>\<open>SMO_open\<close>: the parameters at the start of the file, the
  variable counts, the start date and report step, the bytes per period.\<close>

definition read_parameters :: "SMOutputAPI \<Rightarrow> fault + SMOutputAPI" where
  "read_parameters smoapi =
     (case file' smoapi of
        None \<Rightarrow> Inl NullStream
      | Some f \<Rightarrow>
          bindF (fread_rec f 4) (\<lambda>(b, f). let version = int4_of b in
          bindF (fread_rec f 4) (\<lambda>(b, f). let smoapi = smoapi\<lparr>FlowUnits := int4_of b\<rparr> in
          bindF (fread_rec f 4) (\<lambda>(b, f). let smoapi = smoapi\<lparr>Nsubcatch := int4_of b\<rparr> in
          bindF (fread_rec f 4) (\<lambda>(b, f). let smoapi = smoapi\<lparr>Nnodes := int4_of b\<rparr> in
          bindF (fread_rec f 4) (\<lambda>(b, f). let smoapi = smoapi\<lparr>Nlinks := int4_of b\<rparr> in
          bindF (fread_rec f 4) (\<lambda>(b, f). let smoapi = smoapi\<lparr>Npolluts := int4_of b\<rparr>;
              offset = add32 (add32 (mul32 (add32 (Nsubcatch smoapi) 2) RECORDSIZE)
                                    (mul32 (add32 (mul32 3 (Nnodes smoapi)) 4) RECORDSIZE))
                             (mul32 (add32 (mul32 5 (Nlinks smoapi)) 6) RECORDSIZE);
              offset = add64 offset (ObjPropPos smoapi);
              f = fseeko64 f offset SEEK_SET in
          bindF (fread_rec f 4) (\<lambda>(b, f). let smoapi = smoapi\<lparr>SubcatchVars := int4_of b\<rparr>;
              f = fseeko64 f (mul32 (SubcatchVars smoapi) RECORDSIZE) SEEK_CUR in
          bindF (fread_rec f 4) (\<lambda>(b, f). let smoapi = smoapi\<lparr>NodeVars := int4_of b\<rparr>;
              f = fseeko64 f (mul32 (NodeVars smoapi) RECORDSIZE) SEEK_CUR in
          bindF (fread_rec f 4) (\<lambda>(b, f). let smoapi = smoapi\<lparr>LinkVars := int4_of b\<rparr>;
              f = fseeko64 f (mul32 (LinkVars smoapi) RECORDSIZE) SEEK_CUR in
          bindF (fread_rec f 4) (\<lambda>(b, f). let smoapi = smoapi\<lparr>SysVars := int4_of b\<rparr>;
              offset = sub64 (ResultsPos smoapi) (3 * RECORDSIZE);
              f = fseeko64 f offset SEEK_SET in
          bindF (fread_rec f 8) (\<lambda>(b, f). let smoapi = smoapi\<lparr>StartDate := DoubleBytes b\<rparr> in
          bindF (fread_rec f 4) (\<lambda>(b, f). let smoapi = smoapi\<lparr>ReportStep := int4_of b\<rparr> in
            Inr (smoapi\<lparr>BytesPerPeriod :=
                          add32 DATESIZE
                            (mul32 (add32 (add32 (add32 (mul32 (Nsubcatch smoapi) (SubcatchVars smoapi))
                                                        (mul32 (Nnodes smoapi) (NodeVars smoapi)))
                                                 (mul32 (Nlinks smoapi) (LinkVars smoapi)))
                                          (SysVars smoapi))
                                   RECORDSIZE),
                        file' := Some f\<rparr>))))))))))))))"

text \<open>\<^verbatim>\<open>SMO_open\<close>. The first argument is the file system: the bytes \<^verbatim>\<open>fopen\<close> finds at
  a path, if any. On an error the handle goes through \<^verbatim>\<open>SMO_close\<close>, which frees it
  unless its file is null.\<close>

definition SMO_open ::
  "(string \<Rightarrow> byte list option) \<Rightarrow> SMOutputAPI \<Rightarrow> string \<Rightarrow> fault + (int \<times> SMOutputAPI option)" where
  "SMO_open fs smoapi path =
     (let smoapi = smoapi\<lparr>name := take MAXFILENAME path\<rparr>;
          smoapi = smoapi\<lparr>file' := map_option (\<lambda>bs. \<lparr>content = bs, fpos = 0\<rparr>) (fs path)\<rparr>
      in if file' smoapi = None then Inr (434, snd (SMO_close smoapi))
         else bindF (validateFile smoapi) (\<lambda>(err, smoapi).
                if err \<noteq> 0 then Inr (err, snd (SMO_close smoapi))
                else bindF (read_parameters smoapi) (\<lambda>smoapi. Inr (0, Some smoapi))))"

subsection \<open>Project size, units, start time, times\<close>

text \<open>Each of the four returns the error code and the value left in its out-parameter.\<close>

definition SMO_getProjectSize :: "SMOutputAPI \<Rightarrow> int \<Rightarrow> int \<times> int" where
  "SMO_getProjectSize smoapi code =
     (let count = -1 in
      if file' smoapi = None then (412, count)
      else if code = 0 then (0, Nsubcatch smoapi)
      else if code = 1 then (0, Nnodes smoapi)
      else if code = 2 then (0, Nlinks smoapi)
      else if code = 3 then (0, Npolluts smoapi)
      else (421, count))"

definition SMO_getUnits :: "SMOutputAPI \<Rightarrow> int \<Rightarrow> int \<times> int" where
  "SMO_getUnits smoapi code =
     (let unitFlag = -1 in
      if file' smoapi = None then (412, unitFlag)
      else if code = 0 then (0, FlowUnits smoapi)
      else (421, unitFlag))"

definition SMO_getStartTime :: "SMOutputAPI \<Rightarrow> int \<times> double" where
  "SMO_getStartTime smoapi =
     (let time = DoubleOfInt (-1) in
      if file' smoapi = None then (412, time)
      else (0, StartDate smoapi))"

definition SMO_getTimes :: "SMOutputAPI \<Rightarrow> int \<Rightarrow> int \<times> int" where
  "SMO_getTimes smoapi code =
     (let time = -1 in
      if file' smoapi = None then (412, time)
      else if code = 0 then (0, ReportStep smoapi)
      else if code = 1 then (0, Nperiods smoapi)
      else (421, time))"

definition closed_handle :: SMOutputAPI where
  "closed_handle =
     \<lparr>name = ''missing.out'', file' = None, elementNames = None, Nperiods = 0,
      FlowUnits = 0, Nsubcatch = 0, Nnodes = 0, Nlinks = 0, Npolluts = 0,
      SubcatchVars = 0, NodeVars = 0, LinkVars = 0, SysVars = 0,
      StartDate = DoubleOfInt 0, ReportStep = 0, IDPos = 0, ObjPropPos = 0,
      ResultsPos = 0, BytesPerPeriod = 0\<rparr>"

subsection \<open>Element names\<close>

text \<open>One entry of the ID table. Its length is read into an entry that \<^verbatim>\<open>calloc\<close> has
  zeroed: with nothing left to read the length keeps its old value, a partial read leaves
  it without one. The characters are read into a zeroed buffer of \<open>length + 1\<close>
  characters.\<close>

definition read_length :: "stream \<Rightarrow> int \<Rightarrow> fault + (int \<times> stream)" where
  "read_length f old =
     (case fread1 f 4 of
        (Some b, f') \<Rightarrow> Inr (int4_of b, f')
      | (None, f') \<Rightarrow> if fpos f < length (content f) then Inl ShortRead else Inr (old, f'))"

definition read_name :: "heap \<Rightarrow> stream \<Rightarrow> int \<Rightarrow> fault + (byte list option \<times> stream)" where
  "read_name heap f len =
     (let buf = calloc heap (to_size_t (add32 len 1)) 1 (0 :: byte)
      in case fread f 1 (to_size_t len) of
           (items, partial, f') \<Rightarrow>
             (case buf of
                None \<Rightarrow> if items = [] then Inr (None, f') else Inl NullBuffer
              | Some z \<Rightarrow>
                  if length z < length items then Inl BufferOverrun
                  else Inr (Some (concat items @ drop (length items) z), f')))"

text \<open>The loop of \<^verbatim>\<open>initElementNames\<close> from entry \<open>j\<close> on.\<close>

function names_loop ::
  "heap \<Rightarrow> stream \<Rightarrow> int \<Rightarrow> int \<Rightarrow> idEntry list option
     \<Rightarrow> fault + (idEntry list option \<times> stream)" where
  "names_loop heap f numNames j names =
     (if j < numNames then
        (case names of
           None \<Rightarrow> Inl NullBuffer
         | Some es \<Rightarrow>
             if length es \<le> nat j then Inl BufferOverrun
             else
               bindF (read_length f (length_id (es ! nat j))) (\<lambda>(len, f).
               bindF (read_name heap f len) (\<lambda>(nm, f).
                 names_loop heap f numNames (j + 1)
                   (Some (es[nat j := \<lparr>IDname = nm, length_id = len\<rparr>])))))
      else Inr (names, f))"
  by pat_completeness auto
termination
  by (relation "measure (\<lambda>(heap, f, numNames, j, names). nat (numNames - j))") auto

definition initElementNames :: "heap \<Rightarrow> SMOutputAPI \<Rightarrow> fault + SMOutputAPI" where
  "initElementNames heap smoapi =
     (let numNames = add32 (add32 (add32 (Nsubcatch smoapi) (Nnodes smoapi)) (Nlinks smoapi))
                           (Npolluts smoapi);
          names = calloc heap (to_size_t numNames) 8 \<lparr>IDname = None, length_id = 0\<rparr>
      in case file' smoapi of
           None \<Rightarrow> Inl NullStream
         | Some f \<Rightarrow>
             (let f = fseeko64 f (IDPos smoapi) SEEK_SET in
              bindF (names_loop heap f numNames 0 names) (\<lambda>(names, f).
                Inr (smoapi\<lparr>elementNames := names, file' := Some f\<rparr>))))"

text \<open>The characters of a C string: those before the first NUL.\<close>

definition c_string :: "byte list \<Rightarrow> byte list" where
  "c_string bs = takeWhile (\<lambda>b. b \<noteq> 0) bs"

text \<open>\<^verbatim>\<open>SMO_getElementName\<close> returns its code, the handle, the caller's name buffer and the
  value of \<^verbatim>\<open>*length\<close>. There is no check of \<^verbatim>\<open>smoapi->file\<close> in it.\<close>

definition SMO_getElementName ::
  "heap \<Rightarrow> SMOutputAPI \<Rightarrow> int \<Rightarrow> int \<Rightarrow> byte list option \<Rightarrow> int
     \<Rightarrow> fault + (int \<times> SMOutputAPI \<times> byte list option \<times> int)" where
  "SMO_getElementName heap smoapi type index name_buf len =
     bindF (if elementNames smoapi = None then initElementNames heap smoapi else Inr smoapi)
       (\<lambda>smoapi.
          let (errorcode, idx) =
                (if type = 0 then
                   (if index < 0 \<or> index \<ge> Nsubcatch smoapi then (423, None) else (0, Some index))
                 else if type = 1 then
                   (if index < 0 \<or> index \<ge> Nnodes smoapi then (423, None)
                    else (0, Some (add32 (Nsubcatch smoapi) index)))
                 else if type = 2 then
                   (if index < 0 \<or> index \<ge> Nlinks smoapi then (423, None)
                    else (0, Some (add32 (add32 (Nsubcatch smoapi) (Nnodes smoapi)) index)))
                 else if type = 3 then
                   (if index < 0 \<or> index \<ge> Npolluts smoapi then (423, None)
                    else (0, Some (add32 (add32 (add32 (Nsubcatch smoapi) (Nnodes smoapi))
                                                (Nlinks smoapi)) index)))
                 else (421, None))
          in case idx of
               None \<Rightarrow> Inr (errorcode, smoapi, name_buf, len)
             | Some i \<Rightarrow>
                 (case elementNames smoapi of
                    None \<Rightarrow> Inl NullBuffer
                  | Some es \<Rightarrow>
                      if i < 0 \<or> int (length es) \<le> i then Inl BufferOverrun
                      else
                        (case (IDname (es ! nat i), name_buf) of
                           (Some src, Some dst) \<Rightarrow>
                             bindF (strncpy 0 dst (c_string src) (to_size_t len)) (\<lambda>dst.
                               Inr (errorcode, smoapi, Some dst, length_id (es ! nat i)))
                         | _ \<Rightarrow> Inl NullBuffer)))"

subsection \<open>Allocation of out-arrays\<close>

text \<open>Both allocators return the array (null or the zeroed floats) and the values left in
  \<^verbatim>\<open>*length\<close> and \<^verbatim>\<open>*errcode\<close>, whose values before the call are the last two arguments.\<close>

definition SMO_newOutValueSeries ::
  "heap \<Rightarrow> SMOutputAPI \<Rightarrow> int \<Rightarrow> int \<Rightarrow> int \<Rightarrow> int \<Rightarrow> real4 list option \<times> int \<times> int" where
  "SMO_newOutValueSeries heap smoapi seriesStart seriesLength len errcode =
     (if file' smoapi = None then (None, len, 412)
      else
        (let sz = sub32 seriesLength seriesStart;
             sz = (if sz > Nperiods smoapi then Nperiods smoapi else sz);
             array = calloc heap (to_size_t sz) 4 zero_float
         in (array, sz, MEMCHECK array)))"

definition SMO_newOutValueArray ::
  "heap \<Rightarrow> SMOutputAPI \<Rightarrow> int \<Rightarrow> int \<Rightarrow> int \<Rightarrow> int \<Rightarrow> real4 list option \<times> int \<times> int" where
  "SMO_newOutValueArray heap smoapi func type len errcode =
     (if file' smoapi = None then (None, len, 412)
      else if func = 0 then
        (let sz = (if type = 0 then Nsubcatch smoapi
                   else if type = 1 then Nnodes smoapi
                   else if type = 2 then Nlinks smoapi
                   else 1);
             array = calloc heap (to_size_t sz) 4 zero_float
         in (array, sz, MEMCHECK array))
      else if func = 1 then
        (let sz = (if type = 0 then SubcatchVars smoapi
                   else if type = 1 then NodeVars smoapi
                   else if type = 2 then LinkVars smoapi
                   else SysVars smoapi);
             array = calloc heap (to_size_t sz) 4 zero_float
         in (array, sz, MEMCHECK array))
      else (None, len, 421))"

subsection \<open>Reading result values\<close>

text \<open>The byte offset of period \<open>timeIndex\<close>, past its eight byte date:
  \<^verbatim>\<open>ResultsPos + timeIndex*BytesPerPeriod + 2*RECORDSIZE\<close>, in \<^verbatim>\<open>off64_t\<close>.\<close>

definition period_offset :: "SMOutputAPI \<Rightarrow> int \<Rightarrow> int" where
  "period_offset smoapi timeIndex =
     add64 (add64 (ResultsPos smoapi) (mul64 timeIndex (BytesPerPeriod smoapi))) (2 * RECORDSIZE)"

text \<open>The \<^verbatim>\<open>int\<close> expressions that the four \<^verbatim>\<open>get...Value\<close> functions add to it.\<close>

definition subcatch_value_offset :: "SMOutputAPI \<Rightarrow> int \<Rightarrow> int \<Rightarrow> int \<Rightarrow> int" where
  "subcatch_value_offset smoapi timeIndex subcatchIndex attr =
     add64 (period_offset smoapi timeIndex)
       (mul32 RECORDSIZE (add32 (mul32 subcatchIndex (SubcatchVars smoapi)) attr))"

definition node_value_offset :: "SMOutputAPI \<Rightarrow> int \<Rightarrow> int \<Rightarrow> int \<Rightarrow> int" where
  "node_value_offset smoapi timeIndex nodeIndex attr =
     add64 (period_offset smoapi timeIndex)
       (mul32 RECORDSIZE
          (add32 (add32 (mul32 (Nsubcatch smoapi) (SubcatchVars smoapi))
                        (mul32 nodeIndex (NodeVars smoapi)))
                 attr))"

definition link_value_offset :: "SMOutputAPI \<Rightarrow> int \<Rightarrow> int \<Rightarrow> int \<Rightarrow> int" where
  "link_value_offset smoapi timeIndex linkIndex attr =
     add64 (period_offset smoapi timeIndex)
       (mul32 RECORDSIZE
          (add32 (add32 (add32 (mul32 (Nsubcatch smoapi) (SubcatchVars smoapi))
                               (mul32 (Nnodes smoapi) (NodeVars smoapi)))
                        (mul32 linkIndex (LinkVars smoapi)))
                 attr))"

definition system_value_offset :: "SMOutputAPI \<Rightarrow> int \<Rightarrow> int \<Rightarrow> int" where
  "system_value_offset smoapi timeIndex attr =
     add64 (period_offset smoapi timeIndex)
       (mul32 RECORDSIZE
          (add32 (add32 (add32 (mul32 (Nsubcatch smoapi) (SubcatchVars smoapi))
                               (mul32 (Nnodes smoapi) (NodeVars smoapi)))
                        (mul32 (Nlinks smoapi) (LinkVars smoapi)))
                 attr))"

text \<open>The common tail of the four: seek to the offset, read one float, return it.\<close>

definition read_value_at :: "SMOutputAPI \<Rightarrow> int \<Rightarrow> fault + (real4 option \<times> SMOutputAPI)" where
  "read_value_at smoapi offset =
     (case file' smoapi of
        None \<Rightarrow> Inl NullStream
      | Some f \<Rightarrow>
          (let f = fseeko64 f offset SEEK_SET;
               (val, f) = fread1 f 4
           in Inr (val, smoapi\<lparr>file' := Some f\<rparr>)))"

definition getSubcatchValue ::
  "SMOutputAPI \<Rightarrow> int \<Rightarrow> int \<Rightarrow> int \<Rightarrow> fault + (real4 option \<times> SMOutputAPI)" where
  "getSubcatchValue smoapi timeIndex subcatchIndex attr =
     read_value_at smoapi (subcatch_value_offset smoapi timeIndex subcatchIndex attr)"

definition getNodeValue ::
  "SMOutputAPI \<Rightarrow> int \<Rightarrow> int \<Rightarrow> int \<Rightarrow> fault + (real4 option \<times> SMOutputAPI)" where
  "getNodeValue smoapi timeIndex nodeIndex attr =
     read_value_at smoapi (node_value_offset smoapi timeIndex nodeIndex attr)"

definition getLinkValue ::
  "SMOutputAPI \<Rightarrow> int \<Rightarrow> int \<Rightarrow> int \<Rightarrow> fault + (real4 option \<times> SMOutputAPI)" where
  "getLinkValue smoapi timeIndex linkIndex attr =
     read_value_at smoapi (link_value_offset smoapi timeIndex linkIndex attr)"

definition getSystemValue ::
  "SMOutputAPI \<Rightarrow> int \<Rightarrow> int \<Rightarrow> fault + (real4 option \<times> SMOutputAPI)" where
  "getSystemValue smoapi timeIndex attr =
     read_value_at smoapi (system_value_offset smoapi timeIndex attr)"

subsection \<open>Series\<close>

text \<open>\<^verbatim>\<open>for (k = 0; k < length; k++) out[k] = get(smoapi, timeIndex + k)\<close>, from \<open>k\<close> on. The
  four series functions differ in the function called only, which is the first argument
  here. (\<open>k + 1\<close> cannot overflow: \<open>k\<close> is below a \<^verbatim>\<open>long\<close>.)\<close>

type_synonym getter = "SMOutputAPI \<Rightarrow> int \<Rightarrow> fault + (real4 option \<times> SMOutputAPI)"

function series_loop ::
  "getter \<Rightarrow> SMOutputAPI \<Rightarrow> int \<Rightarrow> int \<Rightarrow> int \<Rightarrow> float_array
     \<Rightarrow> fault + (SMOutputAPI \<times> float_array)" where
  "series_loop get smoapi timeIndex len k out =
     (if k < len then
        (case get smoapi (add32 timeIndex k) of
           Inl e \<Rightarrow> Inl e
         | Inr (v, smoapi') \<Rightarrow>
             (case store out k v of
                Inl e \<Rightarrow> Inl e
              | Inr out' \<Rightarrow> series_loop get smoapi' timeIndex len (k + 1) out'))
      else Inr (smoapi, out))"
  by pat_completeness auto
termination
  by (relation "measure (\<lambda>(get, smoapi, timeIndex, len, k, out). nat (len - k))") auto

text \<open>The body shared by the four series functions; they return the code, the handle and
  the out-array.\<close>

definition get_series ::
  "getter \<Rightarrow> SMOutputAPI \<Rightarrow> int \<Rightarrow> int \<Rightarrow> float_array option
     \<Rightarrow> fault + (int \<times> SMOutputAPI \<times> float_array option)" where
  "get_series get smoapi timeIndex len outValueSeries =
     (if file' smoapi = None then Inr (412, smoapi, outValueSeries)
      else
        (case outValueSeries of
           None \<Rightarrow> Inr (411, smoapi, outValueSeries)
         | Some out \<Rightarrow>
             bindF (series_loop get smoapi timeIndex len 0 out) (\<lambda>(smoapi, out).
               Inr (0, smoapi, Some out))))"

definition SMO_getSubcatchSeries ::
  "SMOutputAPI \<Rightarrow> int \<Rightarrow> int \<Rightarrow> int \<Rightarrow> int \<Rightarrow> float_array option
     \<Rightarrow> fault + (int \<times> SMOutputAPI \<times> float_array option)" where
  "SMO_getSubcatchSeries smoapi subcatchIndex attr timeIndex len outValueSeries =
     get_series (\<lambda>s t. getSubcatchValue s t subcatchIndex attr) smoapi timeIndex len outValueSeries"

definition SMO_getNodeSeries ::
  "SMOutputAPI \<Rightarrow> int \<Rightarrow> int \<Rightarrow> int \<Rightarrow> int \<Rightarrow> float_array option
     \<Rightarrow> fault + (int \<times> SMOutputAPI \<times> float_array option)" where
  "SMO_getNodeSeries smoapi nodeIndex attr timeIndex len outValueSeries =
     get_series (\<lambda>s t. getNodeValue s t nodeIndex attr) smoapi timeIndex len outValueSeries"

definition SMO_getLinkSeries ::
  "SMOutputAPI \<Rightarrow> int \<Rightarrow> int \<Rightarrow> int \<Rightarrow> int \<Rightarrow> float_array option
     \<Rightarrow> fault + (int \<times> SMOutputAPI \<times> float_array option)" where
  "SMO_getLinkSeries smoapi linkIndex attr timeIndex len outValueSeries =
     get_series (\<lambda>s t. getLinkValue s t linkIndex attr) smoapi timeIndex len outValueSeries"

definition SMO_getSystemSeries ::
  "SMOutputAPI \<Rightarrow> int \<Rightarrow> int \<Rightarrow> int \<Rightarrow> float_array option
     \<Rightarrow> fault + (int \<times> SMOutputAPI \<times> float_array option)" where
  "SMO_getSystemSeries smoapi attr timeIndex len outValueSeries =
     get_series (\<lambda>s t. getSystemValue s t attr) smoapi timeIndex len outValueSeries"

subsection \<open>Attributes\<close>

text \<open>\<^verbatim>\<open>for (k = 0; k < n; k++) out[k] = get(smoapi, timeIndex, k, attr)\<close>, from \<open>k\<close> on; the
  getter is applied to the entity index.\<close>

function attribute_loop ::
  "getter \<Rightarrow> SMOutputAPI \<Rightarrow> int \<Rightarrow> int \<Rightarrow> float_array
     \<Rightarrow> fault + (SMOutputAPI \<times> float_array)" where
  "attribute_loop get smoapi n k out =
     (if k < n then
        (case get smoapi k of
           Inl e \<Rightarrow> Inl e
         | Inr (v, smoapi') \<Rightarrow>
             (case store out k v of
                Inl e \<Rightarrow> Inl e
              | Inr out' \<Rightarrow> attribute_loop get smoapi' n (k + 1) out'))
      else Inr (smoapi, out))"
  by pat_completeness auto
termination
  by (relation "measure (\<lambda>(get, smoapi, n, k, out). nat (n - k))") auto

definition get_attribute ::
  "getter \<Rightarrow> SMOutputAPI \<Rightarrow> int \<Rightarrow> float_array option
     \<Rightarrow> fault + (int \<times> SMOutputAPI \<times> float_array option)" where
  "get_attribute get smoapi n outValueArray =
     (if file' smoapi = None then Inr (412, smoapi, outValueArray)
      else
        (case outValueArray of
           None \<Rightarrow> Inr (411, smoapi, outValueArray)
         | Some out \<Rightarrow>
             bindF (attribute_loop get smoapi n 0 out) (\<lambda>(smoapi, out).
               Inr (0, smoapi, Some out))))"

definition SMO_getSubcatchAttribute ::
  "SMOutputAPI \<Rightarrow> int \<Rightarrow> int \<Rightarrow> float_array option
     \<Rightarrow> fault + (int \<times> SMOutputAPI \<times> float_array option)" where
  "SMO_getSubcatchAttribute smoapi timeIndex attr outValueArray =
     get_attribute (\<lambda>s k. getSubcatchValue s timeIndex k attr) smoapi (Nsubcatch smoapi)
       outValueArray"

definition SMO_getNodeAttribute ::
  "SMOutputAPI \<Rightarrow> int \<Rightarrow> int \<Rightarrow> float_array option
     \<Rightarrow> fault + (int \<times> SMOutputAPI \<times> float_array option)" where
  "SMO_getNodeAttribute smoapi timeIndex attr outValueArray =
     get_attribute (\<lambda>s k. getNodeValue s timeIndex k attr) smoapi (Nnodes smoapi) outValueArray"

definition SMO_getLinkAttribute ::
  "SMOutputAPI \<Rightarrow> int \<Rightarrow> int \<Rightarrow> float_array option
     \<Rightarrow> fault + (int \<times> SMOutputAPI \<times> float_array option)" where
  "SMO_getLinkAttribute smoapi timeIndex attr outValueArray =
     get_attribute (\<lambda>s k. getLinkValue s timeIndex k attr) smoapi (Nlinks smoapi) outValueArray"

text \<open>There is one system, so no loop.\<close>

definition SMO_getSystemAttribute ::
  "SMOutputAPI \<Rightarrow> int \<Rightarrow> int \<Rightarrow> float_array option
     \<Rightarrow> fault + (int \<times> SMOutputAPI \<times> float_array option)" where
  "SMO_getSystemAttribute smoapi timeIndex attr outValueArray =
     (if file' smoapi = None then Inr (412, smoapi, outValueArray)
      else
        (case outValueArray of
           None \<Rightarrow> Inr (411, smoapi, outValueArray)
         | Some out \<Rightarrow>
             bindF (getSystemValue smoapi timeIndex attr) (\<lambda>(v, smoapi).
             bindF (store out 0 v) (\<lambda>out.
               Inr (0, smoapi, Some out)))))"

subsection \<open>Results\<close>

text \<open>The offsets of the four \<^verbatim>\<open>get...Result\<close> functions.\<close>

definition subcatch_result_offset :: "SMOutputAPI \<Rightarrow> int \<Rightarrow> int \<Rightarrow> int" where
  "subcatch_result_offset smoapi timeIndex subcatchIndex =
     add64 (period_offset smoapi timeIndex)
       (mul32 (mul32 subcatchIndex (SubcatchVars smoapi)) RECORDSIZE)"

definition node_result_offset :: "SMOutputAPI \<Rightarrow> int \<Rightarrow> int \<Rightarrow> int" where
  "node_result_offset smoapi timeIndex nodeIndex =
     add64 (period_offset smoapi timeIndex)
       (mul32 (add32 (mul32 (Nsubcatch smoapi) (SubcatchVars smoapi))
                     (mul32 nodeIndex (NodeVars smoapi)))
              RECORDSIZE)"

definition link_result_offset :: "SMOutputAPI \<Rightarrow> int \<Rightarrow> int \<Rightarrow> int" where
  "link_result_offset smoapi timeIndex linkIndex =
     add64 (period_offset smoapi timeIndex)
       (mul32 (add32 (add32 (mul32 (Nsubcatch smoapi) (SubcatchVars smoapi))
                            (mul32 (Nnodes smoapi) (NodeVars smoapi)))
                     (mul32 linkIndex (LinkVars smoapi)))
              RECORDSIZE)"

definition system_result_offset :: "SMOutputAPI \<Rightarrow> int \<Rightarrow> int" where
  "system_result_offset smoapi timeIndex =
     add64 (period_offset smoapi timeIndex)
       (mul32 (add32 (add32 (mul32 (Nsubcatch smoapi) (SubcatchVars smoapi))
                            (mul32 (Nnodes smoapi) (NodeVars smoapi)))
                     (mul32 (Nlinks smoapi) (LinkVars smoapi)))
              RECORDSIZE)"

text \<open>The block that every \<^verbatim>\<open>get...Result\<close> function ends with: seek, then one
  \<^verbatim>\<open>fread\<close> of \<open>vars\<close> records into the out-array. It returns \<open>errorcode\<close> unchanged.\<close>

definition read_result ::
  "int \<Rightarrow> SMOutputAPI \<Rightarrow> int \<Rightarrow> int \<Rightarrow> float_array option
     \<Rightarrow> fault + (int \<times> SMOutputAPI \<times> float_array option)" where
  "read_result errorcode smoapi offset vars outValueArray =
     (case file' smoapi of
        None \<Rightarrow> Inl NullStream
      | Some f \<Rightarrow>
          (let f = fseeko64 f offset SEEK_SET in
           bindF (fread_array f vars outValueArray) (\<lambda>(out, f).
             Inr (errorcode, smoapi\<lparr>file' := Some f\<rparr>, out))))"

definition SMO_getSubcatchResult ::
  "SMOutputAPI \<Rightarrow> int \<Rightarrow> int \<Rightarrow> float_array option
     \<Rightarrow> fault + (int \<times> SMOutputAPI \<times> float_array option)" where
  "SMO_getSubcatchResult smoapi timeIndex subcatchIndex outValueArray =
     (if file' smoapi = None then Inr (412, smoapi, outValueArray)
      else if outValueArray = None then Inr (411, smoapi, outValueArray)
      else read_result 0 smoapi (subcatch_result_offset smoapi timeIndex subcatchIndex)
             (SubcatchVars smoapi) outValueArray)"

definition SMO_getNodeResult ::
  "SMOutputAPI \<Rightarrow> int \<Rightarrow> int \<Rightarrow> float_array option
     \<Rightarrow> fault + (int \<times> SMOutputAPI \<times> float_array option)" where
  "SMO_getNodeResult smoapi timeIndex nodeIndex outValueArray =
     (if file' smoapi = None then Inr (412, smoapi, outValueArray)
      else if outValueArray = None then Inr (411, smoapi, outValueArray)
      else read_result 0 smoapi (node_result_offset smoapi timeIndex nodeIndex)
             (NodeVars smoapi) outValueArray)"

definition SMO_getLinkResult ::
  "SMOutputAPI \<Rightarrow> int \<Rightarrow> int \<Rightarrow> float_array option
     \<Rightarrow> fault + (int \<times> SMOutputAPI \<times> float_array option)" where
  "SMO_getLinkResult smoapi timeIndex linkIndex outValueArray =
     (if file' smoapi = None then Inr (412, smoapi, outValueArray)
      else if outValueArray = None then Inr (411, smoapi, outValueArray)
      else read_result 0 smoapi (link_result_offset smoapi timeIndex linkIndex)
             (LinkVars smoapi) outValueArray)"

text \<open>In \<^verbatim>\<open>SMO_getSystemResult\<close> the second \<^verbatim>\<open>else if\<close> ends in a semicolon and no
  \<^verbatim>\<open>else\<close> precedes the block, so the block runs whatever the two checks found.\<close>

definition SMO_getSystemResult ::
  "SMOutputAPI \<Rightarrow> int \<Rightarrow> float_array option
     \<Rightarrow> fault + (int \<times> SMOutputAPI \<times> float_array option)" where
  "SMO_getSystemResult smoapi timeIndex outValueArray =
     (let errorcode = (if file' smoapi = None then 412
                       else if outValueArray = None then 411
                       else 0)
      in read_result errorcode smoapi (system_result_offset smoapi timeIndex)
           (SysVars smoapi) outValueArray)"

subsection \<open>Error messages\<close>

definition ERR411 :: string where
  "ERR411 = ''Input Error 411: no memory allocated for results.''"

definition ERR412 :: string where
  "ERR412 = ''Input Error 412: no results; binary file hasn't been opened.''"

definition ERR421 :: string where
  "ERR421 = ''Input Error 421: invalid parameter code.''"

definition ERR434 :: string where
  "ERR434 = ''File Error  434: unable to open binary output file.''"

definition ERR435 :: string where
  "ERR435 = ''File Error  435: run terminated; no results in binary file.''"

definition ERR441 :: string where
  "ERR441 = ''Error 441: need to call SMO_open before calling this function''"

abbreviation NUL :: char where "NUL \<equiv> CHR 0x00"

definition SMO_errMessage ::
  "int \<Rightarrow> string option \<Rightarrow> int \<Rightarrow> fault + (int \<times> string option)" where
  "SMO_errMessage errcode errmsg n =
     (let copy = (\<lambda>msg. case errmsg of
                           None \<Rightarrow> Inl NullBuffer
                         | Some dst \<Rightarrow>
                             bindF (strncpy NUL dst msg (to_size_t n)) (\<lambda>dst. Inr (0, Some dst)))
      in if errcode = 411 then copy ERR411
         else if errcode = 412 then copy ERR412
         else if errcode = 421 then copy ERR421
         else if errcode = 434 then copy ERR434
         else if errcode = 435 then copy ERR435
         else Inr (421, errmsg))"

subsection \<open>datetime.c\<close>

text \<open>A \<^verbatim>\<open>DateTime\<close> is a \<^verbatim>\<open>double\<close>. The date functions only move whole numbers of
  days below \<open>2 ^ 53\<close> through it, which a double holds exactly, so it is a real number
  here; \<^verbatim>\<open>(int)(floor(date))\<close> is the floor followed by the conversion to \<^verbatim>\<open>int\<close>. A read
  of \<^verbatim>\<open>DaysPerMonth\<close> outside the table has no defined value: \<open>None\<close>.\<close>

type_synonym DateTime = real

definition DaysPerMonth :: "int list list" where
  "DaysPerMonth =
     [ [31, 28, 31, 30, 31, 30, 31, 31, 30, 31, 30, 31],
       [31, 29, 31, 30, 31, 30, 31, 31, 30, 31, 30, 31] ]"

definition DaysPerMonth_at :: "int \<Rightarrow> int \<Rightarrow> int option" where
  "DaysPerMonth_at i j =
     (if 0 \<le> i \<and> i < 2 \<and> 0 \<le> j \<and> j < 12 then Some (DaysPerMonth ! nat i ! nat j) else None)"

definition DateDelta :: int where
  "DateDelta = 693594"

definition divMod :: "int \<Rightarrow> int \<Rightarrow> int \<times> int" where
  "divMod n d = (if d = 0 then (0, 0) else (let result = cdiv n d in (result, n - d * result)))"

definition isLeapYear :: "int \<Rightarrow> int" where
  "isLeapYear year =
     (if cmod year 4 = 0 \<and> (cmod year 100 \<noteq> 0 \<or> cmod year 400 = 0) then 1 else 0)"

function add_month_days :: "int \<Rightarrow> int \<Rightarrow> int \<Rightarrow> int \<Rightarrow> int option" where
  "add_month_days i month j day =
     (if j < month - 1
      then (case DaysPerMonth_at i j of
              None \<Rightarrow> None
            | Some n \<Rightarrow> add_month_days i month (j + 1) (day + n))
      else Some day)"
  by pat_completeness auto
termination
  by (relation "measure (\<lambda>(i, month, j, day). nat (month - 1 - j))") auto

definition datetime_encodeDate :: "int \<Rightarrow> int \<Rightarrow> int \<Rightarrow> DateTime option" where
  "datetime_encodeDate year month day =
     (let i = isLeapYear year in
      if year \<ge> 1 \<and> year \<le> 9999 \<and> month \<ge> 1 \<and> month \<le> 12 \<and> day \<ge> 1
         \<and> (case DaysPerMonth_at i (month - 1) of None \<Rightarrow> False | Some n \<Rightarrow> day \<le> n)
      then (case add_month_days i month 0 day of
              None \<Rightarrow> None
            | Some day \<Rightarrow>
                (let i = year - 1
                 in Some (of_int (i * 365 + cdiv i 4 - cdiv i 100 + cdiv i 400 + day - DateDelta))))
      else Some (of_int (- DateDelta)))"

text \<open>\<^verbatim>\<open>while (t >= D400) { t -= D400; y += 400; }\<close> with \<open>D400 = 146097\<close>.\<close>

function strip_400 :: "int \<Rightarrow> int \<Rightarrow> int \<times> int" where
  "strip_400 t y = (if t \<ge> 146097 then strip_400 (t - 146097) (y + 400) else (t, y))"
  by pat_completeness auto
termination
  by (relation "measure (\<lambda>(t, y). nat t)") auto

function find_month :: "int \<Rightarrow> int \<Rightarrow> int \<Rightarrow> (int \<times> int) option" where
  "find_month k m d =
     (case DaysPerMonth_at k (m - 1) of
        None \<Rightarrow> None
      | Some i \<Rightarrow> if d < i then Some (m, d) else find_month k (m + 1) (d - i))"
  by pat_completeness auto
termination
  by (relation "measure (\<lambda>(k, m, d). nat (13 - m))")
     (auto simp: DaysPerMonth_at_def split: if_splits)

definition datetime_decodeDate :: "DateTime \<Rightarrow> (int \<times> int \<times> int) option" where
  "datetime_decodeDate date =
     (let D1 = 365; D4 = D1 * 4 + 1; D100 = D4 * 25 - 1; D400 = D100 * 4 + 1;
          t = add32 (wrap32 \<lfloor>date\<rfloor>) DateDelta
      in if t \<le> 0 then Some (0, 1, 1)
         else
           (let t = t - 1;
                (t, y) = strip_400 t 1;
                (i, d) = divMod t D100;
                (i, d) = (if i = 4 then (i - 1, d + D100) else (i, d));
                y = y + i * 100;
                (i, d) = divMod d D4;
                y = y + i * 4;
                (i, d) = divMod d D1;
                (i, d) = (if i = 4 then (i - 1, d + D1) else (i, d));
                y = y + i;
                k = isLeapYear y
            in (case find_month k 1 d of
                  None \<Rightarrow> None
                | Some (m, d) \<Rightarrow> Some (y, m, d + 1))))"

definition datetime_daysPerMonth :: "int \<Rightarrow> int \<Rightarrow> int" where
  "datetime_daysPerMonth year month =
     (if month < 1 \<or> month > 12 then 0
      else (case DaysPerMonth_at (isLeapYear year) (month - 1) of None \<Rightarrow> 0 | Some n \<Rightarrow> n))"

declare add_month_days.simps [simp del] find_month.simps [simp del] strip_400.simps [simp del]

subsection \<open>Files and handles used as examples\<close>

text \<open>The fields of a file by their place in it: the magic number in the first four
  bytes, and the six fields of the epilogue in the last 24 bytes (\<open>id_pos\<close>, \<open>obj_prop_pos\<close>,
  \<open>results_pos\<close>, \<open>n_periods\<close>, \<open>terminating_error\<close>, \<open>magic_trailer\<close>, numbered from 0).\<close>

definition leading_magic :: "byte list \<Rightarrow> int" where
  "leading_magic bs = int4_of (take 4 bs)"

definition epilogue_field :: "byte list \<Rightarrow> nat \<Rightarrow> int" where
  "epilogue_field bs k = int4_of (take 4 (drop (length bs - 24 + 4 * k) bs))"

text \<open>A file of a run that stopped with an error before its first reporting period.\<close>

definition aborted_file :: "byte list" where
  "aborted_file =
     [1, 0, 0, 0] @
     [4, 0, 0, 0,  4, 0, 0, 0,  4, 0, 0, 0,  0, 0, 0, 0,  1, 0, 0, 0,  1, 0, 0, 0]"

text \<open>A complete file: one subcatchment, one node, one link, no pollutant; one variable for
  the subcatchment, the node and the system, two for the link; two periods of 28 bytes
  from offset 175.\<close>

definition example_file :: "byte list" where
  "example_file =
     [1, 0, 0, 0] @
     [1, 0, 0, 0,  0, 0, 0, 0,  1, 0, 0, 0,  1, 0, 0, 0,  1, 0, 0, 0,  0, 0, 0, 0] @
     [1, 0, 0, 0, 0x53,  1, 0, 0, 0, 0x4E,  1, 0, 0, 0, 0x4C] @
     [0, 0, 0, 0,  0, 0, 0, 0,  0, 0, 0, 0,
      0, 0, 0, 0,  0, 0, 0, 0,  0, 0, 0, 0,  0, 0, 0, 0,  0, 0, 0, 0,  0, 0, 0, 0,  0, 0, 0, 0,
      0, 0, 0, 0,  0, 0, 0, 0,  0, 0, 0, 0,  0, 0, 0, 0,  0, 0, 0, 0,  0, 0, 0, 0,  0, 0, 0, 0,
      0, 0, 0, 0,  0, 0, 0, 0,  0, 0, 0, 0,  0, 0, 0, 0] @
     [1, 0, 0, 0,  0, 0, 0, 0,  1, 0, 0, 0,  0, 0, 0, 0,
      2, 0, 0, 0,  0, 0, 0, 0,  1, 0, 0, 0,  1, 0, 0, 0,  0, 0, 0, 0] @
     [0, 0, 0, 0, 0, 0, 0, 0,  60, 0, 0, 0] @
     [0, 0, 0, 0, 0, 0, 0, 0,  10, 0, 0, 0,  11, 0, 0, 0,  12, 0, 0, 0,  13, 0, 0, 0,  14, 0, 0, 0] @
     [0, 0, 0, 0, 0, 0, 0, 0,  20, 0, 0, 0,  21, 0, 0, 0,  22, 0, 0, 0,  23, 0, 0, 0,  24, 0, 0, 0] @
     [28, 0, 0, 0,  43, 0, 0, 0,  175, 0, 0, 0,  2, 0, 0, 0,  0, 0, 0, 0,  1, 0, 0, 0]"

definition example_fs :: "string \<Rightarrow> byte list option" where
  "example_fs path = (if path = ''example.out'' then Some example_file else None)"


definition example_handle :: SMOutputAPI where
  "example_handle =
     \<lparr>name = ''example.out'', file' = Some \<lparr>content = example_file, fpos = 175\<rparr>,
      elementNames = None, Nperiods = 2, FlowUnits = 0,
      Nsubcatch = 1, Nnodes = 1, Nlinks = 1, Npolluts = 0,
      SubcatchVars = 1, NodeVars = 1, LinkVars = 2, SysVars = 1,
      StartDate = DoubleBytes [0, 0, 0, 0, 0, 0, 0, 0],
      ReportStep = 60, IDPos = 28, ObjPropPos = 43, ResultsPos = 175,
      BytesPerPeriod = 28\<rparr>"

text \<open>Arguments of the examples: a file system with the aborted file only, one with no file,
  an allocator that grants every request, and the caller's arrays before a call (room for
  four floats, for 16 and for 80 characters).\<close>

definition aborted_fs :: "string \<Rightarrow> byte list option" where
  "aborted_fs path = Some aborted_file"

definition empty_fs :: "string \<Rightarrow> byte list option" where
  "empty_fs path = None"

definition generous :: heap where
  "generous n = True"

definition no_values :: float_array where
  "no_values = [None, None, None, None]"

definition blank_name :: "byte list" where
  "blank_name = replicate 16 0"

definition blank_text :: string where
  "blank_text = replicate 80 (CHR ''?'')"

subsection \<open>Handles that describe their file\<close>

text \<open>The number of values in a period, and a handle that describes its file: the file is
  open, no count is negative, the bytes per period are what \<open>SMO_open\<close> computes and fit
  an \<^verbatim>\<open>int\<close>, the results start inside the file, and the file size fits \<^verbatim>\<open>off64_t\<close>.\<close>

definition values_per_period :: "SMOutputAPI \<Rightarrow> int" where
  "values_per_period h =
     Nsubcatch h * SubcatchVars h + Nnodes h * NodeVars h + Nlinks h * LinkVars h + SysVars h"

definition well_formed :: "SMOutputAPI \<Rightarrow> stream \<Rightarrow> bool" where
  "well_formed h f \<longleftrightarrow>
     file' h = Some f \<and>
     0 \<le> Nsubcatch h \<and> 0 \<le> Nnodes h \<and> 0 \<le> Nlinks h \<and>
     0 \<le> SubcatchVars h \<and> 0 \<le> NodeVars h \<and> 0 \<le> LinkVars h \<and> 0 \<le> SysVars h \<and>
     BytesPerPeriod h = 8 + 4 * values_per_period h \<and> in_int32 (BytesPerPeriod h) \<and>
     0 \<le> ResultsPos h \<and> int (length (content f)) < 2 ^ 63"

text \<open>Period \<open>p\<close> (a \<^verbatim>\<open>long\<close>, counted from 0) lies in the file.\<close>

definition period_in_file :: "SMOutputAPI \<Rightarrow> stream \<Rightarrow> int \<Rightarrow> bool" where
  "period_in_file h f p \<longleftrightarrow>
     0 \<le> p \<and> in_int32 p \<and>
     ResultsPos h + (p + 1) * BytesPerPeriod h \<le> int (length (content f))"

text \<open>The byte offset of value slot \<open>x\<close> of period \<open>p\<close>.\<close>

definition slot_offset :: "SMOutputAPI \<Rightarrow> int \<Rightarrow> int \<Rightarrow> int" where
  "slot_offset h p x = ResultsPos h + p * BytesPerPeriod h + 8 + 4 * x"

declare series_loop.simps [simp del] attribute_loop.simps [simp del] names_loop.simps [simp del]

section \<open>Theorems\<close>

text \<open>
  C10. Whenever \<open>SMO_getProjectSize\<close>, \<open>SMO_getUnits\<close>, \<open>SMO_getStartTime\<close> or
  \<open>SMO_getTimes\<close> returns a non-zero error code, its out-parameter holds the sentinel
  \<open>-1\<close>: the sentinel is stored before any check, and the two failing paths (null file,
  unknown code) store nothing after it.
\<close>

theorem sentinel_on_failure:
  "(fst (SMO_getProjectSize smoapi code) \<noteq> 0 \<longrightarrow> snd (SMO_getProjectSize smoapi code) = -1) \<and>
   (fst (SMO_getUnits smoapi code) \<noteq> 0 \<longrightarrow> snd (SMO_getUnits smoapi code) = -1) \<and>
   (fst (SMO_getStartTime smoapi) \<noteq> 0 \<longrightarrow> snd (SMO_getStartTime smoapi) = DoubleOfInt (-1)) \<and>
   (fst (SMO_getTimes smoapi code) \<noteq> 0 \<longrightarrow> snd (SMO_getTimes smoapi code) = -1)"
  by (simp add: SMO_getProjectSize_def SMO_getUnits_def SMO_getStartTime_def SMO_getTimes_def
      Let_def)

theorem sentinel_on_failure_witness:
  "fst (SMO_getProjectSize closed_handle 7) \<noteq> 0 \<and> snd (SMO_getProjectSize closed_handle 7) = -1 \<and>
   fst (SMO_getUnits closed_handle 7) \<noteq> 0 \<and> snd (SMO_getUnits closed_handle 7) = -1 \<and>
   fst (SMO_getStartTime closed_handle) \<noteq> 0 \<and> snd (SMO_getStartTime closed_handle) = DoubleOfInt (-1) \<and>
   fst (SMO_getTimes closed_handle 7) \<noteq> 0 \<and> snd (SMO_getTimes closed_handle 7) = -1"
proof -
  have nz: "fst (SMO_getProjectSize closed_handle 7) \<noteq> 0" "fst (SMO_getUnits closed_handle 7) \<noteq> 0"
    "fst (SMO_getStartTime closed_handle) \<noteq> 0" "fst (SMO_getTimes closed_handle 7) \<noteq> 0"
    by (simp_all add: SMO_getProjectSize_def SMO_getUnits_def SMO_getStartTime_def
        SMO_getTimes_def closed_handle_def Let_def)
  with sentinel_on_failure [of closed_handle 7] show ?thesis by blast
qed

subsection \<open>The date round trip\<close>

lemma cdiv_nonneg: "0 \<le> a \<Longrightarrow> 0 < b \<Longrightarrow> cdiv a b = a div b"
  by (cases "a = 0") (simp_all add: cdiv_def)

lemma cmod_nonneg: "0 \<le> a \<Longrightarrow> 0 < b \<Longrightarrow> cmod a b = a mod b"
  by (simp add: cmod_def cdiv_nonneg minus_mult_div_eq_mod)

lemma wrap32_id: "- (2 ^ 31) \<le> x \<Longrightarrow> x < 2 ^ 31 \<Longrightarrow> wrap32 x = x"
  by (simp add: wrap32_def)

lemma strip_400_eq: "0 \<le> t \<Longrightarrow> strip_400 t y = (t mod 146097, y + 400 * (t div 146097))"
proof (induction t y rule: strip_400.induct)
  case (1 t y)
  show ?case
  proof (cases "t \<ge> 146097")
    case True
    with 1 have "strip_400 (t - 146097) (y + 400)
        = ((t - 146097) mod 146097, y + 400 + 400 * ((t - 146097) div 146097))"
      by simp
    moreover have "(t - 146097) mod 146097 = t mod 146097"
      by (metis mod_diff_right_eq mod_self diff_zero)
    moreover have "(t - 146097) div 146097 = t div 146097 - 1"
      using div_add_self2 [of 146097 "t - 146097"] by simp
    ultimately show ?thesis using True by (subst strip_400.simps) simp
  next
    case False
    with 1 show ?thesis by (subst strip_400.simps) simp
  qed
qed

lemma divMod_eq: "0 \<le> r \<Longrightarrow> r < d \<Longrightarrow> 0 \<le> q \<Longrightarrow> divMod (d * q + r) d = (q, r)"
proof -
  assume a: "0 \<le> r" "r < d" "0 \<le> q"
  then have nn: "0 \<le> d * q + r" by simp
  have "(d * q + r) div d = q" using a by (intro int_div_pos_eq [of _ d q r]) simp_all
  with a nn show ?thesis by (simp add: divMod_def cdiv_nonneg)
qed


lemma decode_days:
  assumes a: "0 \<le> a" "a \<le> 24"
    and b: "0 \<le> b" "b \<le> 3"
    and c: "0 \<le> c" "c \<le> 24"
    and f: "0 \<le> f" "f \<le> 3"
    and e: "0 \<le> e" "e \<le> 364 \<or> e = 365 \<and> f = 3 \<and> (c < 24 \<or> b = 3)"
  shows "datetime_decodeDate (of_int (146097 * a + 36524 * b + 1461 * c + 365 * f + e + 1 - DateDelta))
     = (case find_month (isLeapYear (1 + 400 * a + 100 * b + 4 * c + f)) 1 e of
          None \<Rightarrow> None
        | Some (m, d) \<Rightarrow> Some (1 + 400 * a + 100 * b + 4 * c + f, m, d + 1))"
proof -
  define w where "w = 365 * f + e"
  define v where "v = 1461 * c + w"
  define u where "u = 36524 * b + v"
  define T where "T = 146097 * a + u"
  have w_bounds: "0 \<le> w" "w < 1461" using f e by (auto simp: w_def)
  have v_nonneg: "0 \<le> v" using c w_bounds by (simp add: v_def)
  have v_le: "v \<le> 36524" using c f e unfolding v_def w_def by (elim disjE conjE; linarith)
  have v_top: "b = 3 \<and> c = 24 \<and> f = 3 \<and> e = 365" if "v = 36524"
    using c f e that unfolding v_def w_def by (elim disjE conjE; linarith)
  note v_bounds = v_nonneg v_le v_top
  have u_bounds: "0 \<le> u" "u < 146097" using b v_bounds by (auto simp: u_def)
  have T_bounds: "0 \<le> T" "T < 3652425" using a u_bounds by (auto simp: T_def)
  have t_eq: "add32 (wrap32 \<lfloor>(of_int (T + 1 - DateDelta) :: real)\<rfloor>) DateDelta = T + 1"
    using T_bounds by (simp add: add32_def wrap32_id DateDelta_def)
  have s1: "strip_400 T 1 = (u, 1 + 400 * a)"
  proof -
    have "T div 146097 = a" "T mod 146097 = u"
      using u_bounds by (auto intro: int_div_pos_eq [of _ _ a u] int_mod_pos_eq [of _ _ a u] simp: T_def)
    with T_bounds show ?thesis by (simp add: strip_400_eq)
  qed
  have s3: "divMod v 1461 = (c, w)"
    unfolding v_def using w_bounds c by (intro divMod_eq) auto
  have arg: "146097 * a + 36524 * b + 1461 * c + 365 * f + e + 1 - DateDelta = T + 1 - DateDelta"
    by (simp add: T_def u_def v_def w_def)
  have pos: "\<not> T + 1 \<le> 0" using T_bounds by simp
  have s4: "divMod w 365 = (if e = 365 then (4, 0) else (f, e))"
  proof (cases "e = 365")
    case True
    with e have "w = 365 * 4 + 0" by (simp add: w_def)
    then have "divMod w 365 = (4, 0)" using divMod_eq [of 0 365 4] by simp
    with True show ?thesis by simp
  next
    case False
    with e f have "divMod w 365 = (f, e)" unfolding w_def by (intro divMod_eq) auto
    with False show ?thesis by simp
  qed
  have f3: "f = 3" if "e = 365" using e that by simp
  have f4: "f \<noteq> 4" "b \<noteq> 4" using f b by auto
  show ?thesis
  proof (cases "v = 36524")
    case True
    with v_top have "u = 36524 * 4 + 0" by (simp add: u_def)
    then have s2: "divMod u 36524 = (4, 0)" using divMod_eq [of 0 36524 4] by simp
    have s3': "divMod 36524 1461 = (c, w)" using s3 True by simp
    from v_top [OF True] have vals: "b = 3" "c = 24" "f = 3" "e = 365" by simp_all
    have s4': "divMod w 365 = (4, 0)" using s4 vals by simp
    show ?thesis
      unfolding arg datetime_decodeDate_def Let_def t_eq
      by (simp add: pos s1 s2 s3' s4') (simp add: vals split: option.splits)
  next
    case False
    with v_nonneg v_le b have s2: "divMod u 36524 = (b, v)"
      unfolding u_def by (intro divMod_eq) auto
    show ?thesis
    proof (cases "e = 365")
      case True
      have s4': "divMod w 365 = (4, 0)" using s4 True by simp
      show ?thesis
        unfolding arg datetime_decodeDate_def Let_def t_eq
        by (simp add: pos s1 s2 s3 s4' f4) (simp add: True f3 [OF True] algebra_simps split: option.splits)
    next
      case False
      have s4': "divMod w 365 = (f, e)" using s4 False by simp
      show ?thesis
        unfolding arg datetime_decodeDate_def Let_def t_eq
        using T_bounds by (simp add: s1 s2 s3 s4' f4 algebra_simps split: option.splits)
    qed
  qed
qed

lemma year_decomp:
  fixes r :: int
  assumes "0 \<le> r" "r \<le> 9998"
  obtains a b c f where "r = 400 * a + 100 * b + 4 * c + f"
    "0 \<le> a" "a \<le> 24" "0 \<le> b" "b \<le> 3" "0 \<le> c" "c \<le> 24" "0 \<le> f" "f \<le> 3"
proof -
  define a where "a = r div 400"
  define b where "b = (r mod 400) div 100"
  define c where "c = (r mod 100) div 4"
  define f where "f = r mod 4"
  have "r = 400 * a + r mod 400" by (simp add: a_def)
  moreover have "r mod 400 = 100 * b + (r mod 400) mod 100" by (simp add: b_def)
  moreover have "(r mod 400) mod 100 = r mod 100" by (simp add: mod_mod_cancel)
  moreover have "r mod 100 = 4 * c + (r mod 100) mod 4" by (simp add: c_def)
  moreover have "(r mod 100) mod 4 = f" by (simp add: f_def mod_mod_cancel)
  ultimately have eq: "r = 400 * a + 100 * b + 4 * c + f" by linarith
  have "0 \<le> a" "a \<le> 24" using assms by (simp_all add: a_def) 
  moreover have "0 \<le> b" "b \<le> 3" by (simp_all add: b_def) 
  moreover have "0 \<le> c" "c \<le> 24" by (simp_all add: c_def) 
  moreover have "0 \<le> f" "f \<le> 3" by (simp_all add: f_def) 
  ultimately show ?thesis using eq that by blast
qed

lemma days_before:
  fixes a b c f :: int
  assumes "0 \<le> a" "0 \<le> b" "b \<le> 3" "0 \<le> c" "c \<le> 24" "0 \<le> f" "f \<le> 3"
    and r: "r = 400 * a + 100 * b + 4 * c + f"
  shows "r * 365 + cdiv r 4 - cdiv r 100 + cdiv r 400
       = 146097 * a + 36524 * b + 1461 * c + 365 * f"
proof -
  have r0: "0 \<le> r" using assms by simp
  have "r div 4 = 100 * a + 25 * b + c"
    using assms by (intro int_div_pos_eq [of _ _ _ f]) simp_all
  moreover have "r div 100 = 4 * a + b"
    using assms by (intro int_div_pos_eq [of _ _ _ "4 * c + f"]) simp_all
  moreover have "r div 400 = a"
    using assms by (intro int_div_pos_eq [of _ _ _ "100 * b + 4 * c + f"]) simp_all
  ultimately show ?thesis using r0 by (simp add: cdiv_nonneg r)
qed

lemma leap_decomp:
  fixes a b c f :: int
  assumes "0 \<le> a" "0 \<le> b" "b \<le> 3" "0 \<le> c" "c \<le> 24" "0 \<le> f" "f \<le> 3"
    and y: "y = 1 + 400 * a + 100 * b + 4 * c + f"
  shows "isLeapYear y = (if f = 3 \<and> (c < 24 \<or> b = 3) then 1 else 0)"
proof -
  have y0: "0 \<le> y" using assms by simp
  have m4: "y mod 4 = (if f = 3 then 0 else f + 1)"
  proof (cases "f = 3")
    case True
    then have "y = 4 * (100 * a + 25 * b + c + 1) + 0" using y by simp
    then have "y mod 4 = 0" by (rule int_mod_pos_eq) simp_all
    with True show ?thesis by simp
  next
    case False
    then have "y mod 4 = f + 1"
      using assms by (intro int_mod_pos_eq [of _ _ "100 * a + 25 * b + c"]) simp_all
    with False show ?thesis by simp
  qed
  have m100: "y mod 100 = (if f = 3 \<and> c = 24 then 0 else 4 * c + f + 1)"
  proof (cases "f = 3 \<and> c = 24")
    case True
    then have "y = 100 * (4 * a + b + 1) + 0" using y by simp
    then have "y mod 100 = 0" by (rule int_mod_pos_eq) simp_all
    with True show ?thesis by simp
  next
    case False
    then have "4 * c + f + 1 < 100" using assms by auto
    then have "y mod 100 = 4 * c + f + 1"
      using assms by (intro int_mod_pos_eq [of _ _ "4 * a + b"]) simp_all
    with False show ?thesis by simp
  qed
  have m400: "y mod 400 = (if f = 3 \<and> c = 24 \<and> b = 3 then 0 else 100 * b + 4 * c + f + 1)"
  proof (cases "f = 3 \<and> c = 24 \<and> b = 3")
    case True
    then have "y = 400 * (a + 1) + 0" using y by simp
    then have "y mod 400 = 0" by (rule int_mod_pos_eq) simp_all
    with True show ?thesis by simp
  next
    case False
    then have "100 * b + 4 * c + f + 1 < 400" using assms by auto
    then have "y mod 400 = 100 * b + 4 * c + f + 1"
      using assms by (intro int_mod_pos_eq [of _ _ a]) simp_all
    with False show ?thesis by simp
  qed
  show ?thesis
    using assms(2-7) unfolding isLeapYear_def cmod_nonneg [OF y0] m4 m100 m400
    by (auto simp: cmod_nonneg [OF y0] m4 m100 m400)
qed

lemma month_cases:
  fixes m :: int
  assumes "1 \<le> m" "m \<le> 12"
  shows "m = 1 \<or> m = 2 \<or> m = 3 \<or> m = 4 \<or> m = 5 \<or> m = 6 \<or> m = 7 \<or> m = 8 \<or> m = 9
       \<or> m = 10 \<or> m = 11 \<or> m = 12"
  using assms by arith

lemma months_inverse:
  assumes k: "k = 0 \<or> k = 1" and m: "1 \<le> m" "m \<le> 12"
    and d: "1 \<le> d" "DaysPerMonth_at k (m - 1) = Some n" "d \<le> n"
  shows "\<exists>s. add_month_days k m 0 d = Some (s + d) \<and> 0 \<le> s \<and> s + d \<le> 365 + k
           \<and> find_month k 1 (s + d - 1) = Some (m, d - 1)"
proof -
  note defs = DaysPerMonth_at_def DaysPerMonth_def add_month_days.simps find_month.simps
  from k show ?thesis
  proof
    assume k0: "k = 0"
    from month_cases [OF m] show ?thesis
      using d unfolding k0
      by (elim disjE) (simp_all add: defs)
  next
    assume k1: "k = 1"
    from month_cases [OF m] show ?thesis
      using d unfolding k1
      by (elim disjE) (simp_all add: defs)
  qed
qed

text \<open>
  C8. For every year \<open>1 \<le> y \<le> 9999\<close>, month \<open>1 \<le> m \<le> 12\<close> and day
  \<open>1 \<le> d \<le> datetime_daysPerMonth y m\<close>, \<open>datetime_encodeDate\<close> produces a value and
  \<open>datetime_decodeDate\<close> of that value is exactly \<open>(y, m, d)\<close>.
\<close>

theorem date_round_trip:
  assumes y: "1 \<le> y" "y \<le> 9999" and m: "1 \<le> m" "m \<le> 12"
    and d: "1 \<le> d" "d \<le> datetime_daysPerMonth y m"
  shows "\<exists>x. datetime_encodeDate y m d = Some x \<and> datetime_decodeDate x = Some (y, m, d)"
proof -
  define k where "k = isLeapYear y"
  have k: "k = 0 \<or> k = 1" by (simp add: k_def isLeapYear_def)
  with m obtain n where n: "DaysPerMonth_at k (m - 1) = Some n"
    by (auto simp: DaysPerMonth_at_def)
  with d m have dn: "d \<le> n" by (simp add: datetime_daysPerMonth_def k_def)
  from months_inverse [OF k m d(1) n dn] obtain s where
    s: "add_month_days k m 0 d = Some (s + d)" "0 \<le> s" "s + d \<le> 365 + k"
       "find_month k 1 (s + d - 1) = Some (m, d - 1)"
    by blast
  from y have "0 \<le> y - 1" "y - 1 \<le> 9998" by simp_all
  then obtain a b c f where r: "y - 1 = 400 * a + 100 * b + 4 * c + f"
    and abcf: "0 \<le> a" "a \<le> 24" "0 \<le> b" "b \<le> 3" "0 \<le> c" "c \<le> 24" "0 \<le> f" "f \<le> 3"
    by (rule year_decomp)
  have yy: "y = 1 + 400 * a + 100 * b + 4 * c + f" using r by simp
  have leap: "k = (if f = 3 \<and> (c < 24 \<or> b = 3) then 1 else 0)"
    unfolding k_def using abcf(1,3-8) yy by (rule leap_decomp)
  have before: "(y - 1) * 365 + cdiv (y - 1) 4 - cdiv (y - 1) 100 + cdiv (y - 1) 400
      = 146097 * a + 36524 * b + 1461 * c + 365 * f"
    using abcf(1,3-8) r by (rule days_before)
  define e where "e = s + d - 1"
  have e: "0 \<le> e" "e \<le> 364 \<or> e = 365 \<and> f = 3 \<and> (c < 24 \<or> b = 3)"
    using s(2,3) d(1) leap by (auto simp: e_def split: if_splits)
  have enc: "datetime_encodeDate y m d
      = Some (of_int (146097 * a + 36524 * b + 1461 * c + 365 * f + e + 1 - DateDelta))"
    using y m d(1) dn n s(1) before
    by (simp add: datetime_encodeDate_def Let_def k_def [symmetric] e_def)
  have "datetime_decodeDate (of_int (146097 * a + 36524 * b + 1461 * c + 365 * f + e + 1 - DateDelta))
      = Some (y, m, d)"
    using decode_days [OF abcf e] s(4) by (simp add: yy [symmetric] k_def [symmetric] e_def)
  with enc show ?thesis by simp
qed

theorem date_round_trip_witness:
  "(1::int) \<le> 2024 \<and> (2024::int) \<le> 9999 \<and> (1::int) \<le> 2 \<and> (2::int) \<le> 12 \<and> (1::int) \<le> 29
   \<and> 29 \<le> datetime_daysPerMonth 2024 2
   \<and> (\<exists>x. datetime_encodeDate 2024 2 29 = Some x \<and> datetime_decodeDate x = Some (2024, 2, 29))"
proof -
  have h: "29 \<le> datetime_daysPerMonth 2024 2"
    by (simp add: datetime_daysPerMonth_def isLeapYear_def cmod_def cdiv_def DaysPerMonth_at_def
        DaysPerMonth_def)
  from date_round_trip [of 2024 2 29] h show ?thesis by simp
qed

subsection \<open>Streams and binds\<close>

lemma fread1_full:
  assumes "fpos f + n \<le> length (content f)" "0 < n"
  shows "fread1 f n = (Some (take n (drop (fpos f) (content f))), f\<lparr>fpos := fpos f + n\<rparr>)"
proof -
  have "1 \<le> (length (content f) - fpos f) div n"
    using assms by (simp add: Suc_le_eq div_greater_zero_iff)
  then have "min 1 ((length (content f) - fpos f) div n) = 1" by simp
  moreover have "min n (length (content f) - fpos f) = n" using assms by simp
  ultimately show ?thesis by (simp add: fread1_def fread_def Let_def)
qed

lemma fread1_short:
  assumes "length (content f) < fpos f + n" "0 < n"
  shows "fst (fread1 f n) = None"
proof -
  have "length (content f) - fpos f < n" using assms by arith
  then have "(length (content f) - fpos f) div n = 0" by simp
  then show ?thesis by (simp add: fread1_def fread_def Let_def)
qed

lemma fread_rec_full:
  assumes "fpos f + n \<le> length (content f)" "0 < n"
  shows "fread_rec f n = Inr (take n (drop (fpos f) (content f)), f\<lparr>fpos := fpos f + n\<rparr>)"
  by (simp add: fread_rec_def fread1_full [OF assms])

lemma bindF_Inr [simp]: "bindF (Inr x) k = k x"
  by (simp add: bindF_def)

lemma bindF_Inl [simp]: "bindF (Inl e) k = Inl e"
  by (simp add: bindF_def)

lemma validateFile_code:
  assumes f: "file' smoapi = Some f" and len: "24 \<le> length (content f)"
  shows "\<exists>s. validateFile smoapi =
           Inr (if leading_magic (content f) \<noteq> epilogue_field (content f) 5 then 435
                else if epilogue_field (content f) 3 \<le> 0 then 436
                else if epilogue_field (content f) 4 \<noteq> 0 then 435
                else 0, s) \<and> file' s \<noteq> None"
proof -
  define n where "n = length (content f)"
  define g :: "int \<Rightarrow> stream" where "g k = f\<lparr>fpos := n - 24 + 4 * nat k\<rparr>" for k
  have seek: "fseeko64 f (- 6 * 4) SEEK_END = g 0"
    using len by (simp add: fseeko64_def g_def n_def nat_diff_distrib)
  have rd: "fread_rec (g k) 4 = Inr (take 4 (drop (n - 24 + 4 * nat k) (content f)), g (k + 1))"
    if "0 \<le> k" "k < 6" for k
    using that len by (simp add: g_def n_def fread_rec_full nat_add_distrib)
  have rd0: "fread_rec (fseeko64 (g 6) 0 SEEK_SET) 4 = Inr (take 4 (content f), f\<lparr>fpos := 4\<rparr>)"
    using len by (simp add: g_def fseeko64_def fread_rec_full)
  have r0: "fread_rec (g 0) 4 = Inr (take 4 (drop (n - 24 + 4 * 0) (content f)), g 1)" using rd [of 0] by simp
  have r1: "fread_rec (g 1) 4 = Inr (take 4 (drop (n - 24 + 4 * 1) (content f)), g 2)" using rd [of 1] by simp
  have r2: "fread_rec (g 2) 4 = Inr (take 4 (drop (n - 24 + 4 * 2) (content f)), g 3)" using rd [of 2] by simp
  have r3: "fread_rec (g 3) 4 = Inr (take 4 (drop (n - 24 + 4 * 3) (content f)), g 4)" using rd [of 3] by simp
  have r4: "fread_rec (g 4) 4 = Inr (take 4 (drop (n - 24 + 4 * 4) (content f)), g 5)" using rd [of 4] by simp
  have r5: "fread_rec (g 5) 4 = Inr (take 4 (drop (n - 24 + 4 * 5) (content f)), g 6)" using rd [of 5] by simp
  show ?thesis
    unfolding validateFile_def f option.case Let_def seek
    by (simp add: r0 r1 r2 r3 r4 r5 rd0 leading_magic_def epilogue_field_def n_def [symmetric])
qed

lemma open_example: "SMO_open example_fs closed_handle ''example.out'' = Inr (0, Some example_handle)"
  by code_simp

subsection \<open>The series functions\<close>

lemma read_value_at_open:
  assumes "file' s \<noteq> None"
  shows "\<exists>v s'. read_value_at s off = Inr (v, s') \<and> file' s' \<noteq> None"
  using assms by (auto simp: read_value_at_def Let_def split: option.splits prod.splits)

lemma store_in_array:
  "0 \<le> k \<Longrightarrow> nat k < length out \<Longrightarrow> store out k v = Inr (out[nat k := v])"
  by (simp add: store_def)

lemma series_loop_returns:
  "(\<And>s t. file' s \<noteq> None \<Longrightarrow> \<exists>v s'. get s t = Inr (v, s') \<and> file' s' \<noteq> None) \<Longrightarrow>
   file' s \<noteq> None \<Longrightarrow> 0 \<le> k \<Longrightarrow> len \<le> int (length out) \<Longrightarrow>
   \<exists>s' out'. series_loop get s t len k out = Inr (s', out') \<and> length out' = length out"
proof (induction get s t len k out rule: series_loop.induct)
  case (1 get s t len k out)
  show ?case
  proof (cases "k < len")
    case True
    from "1.prems" obtain v s' where g: "get s (add32 t k) = Inr (v, s')" "file' s' \<noteq> None"
      by blast
    have st: "store out k v = Inr (out[nat k := v])"
      using True "1.prems"(3,4) by (intro store_in_array) simp_all
    have "\<exists>s'' out'. series_loop get s' t len (k + 1) (out[nat k := v]) = Inr (s'', out')
        \<and> length out' = length (out[nat k := v])"
      using "1.prems"(3,4)
      by (intro "1.IH" [OF True g(1) refl st] "1.prems"(1) g(2)) simp_all
    then obtain s'' out' where
      "series_loop get s' t len (k + 1) (out[nat k := v]) = Inr (s'', out')"
      "length out' = length out" by auto
    with True g st show ?thesis by (subst series_loop.simps) simp
  next
    case False
    then show ?thesis by (subst series_loop.simps) simp
  qed
qed

lemma get_series_returns:
  assumes get: "\<And>s t. file' s \<noteq> None \<Longrightarrow> \<exists>v s'. get s t = Inr (v, s') \<and> file' s' \<noteq> None"
    and "file' s \<noteq> None" and "len \<le> int (length out)"
  shows "\<exists>s' out'. get_series get s t len (Some out) = Inr (0, s', Some out')"
proof -
  have "\<exists>s' out'. series_loop get s t len 0 out = Inr (s', out') \<and> length out' = length out"
    using assms(2,3) by (intro series_loop_returns get) simp_all
  then obtain s' out' where "series_loop get s t len 0 out = Inr (s', out')" by blast
  with assms(2) show ?thesis by (simp add: get_series_def bindF_def)
qed

text \<open>
  C9. On a handle whose file is open and with an out-array that has room for \<open>len\<close>
  values, each of the four series functions returns 0, whatever the entity index, the
  attribute and the start period are, and for every length the array can take (zero and
  negative lengths included): none of them is validated, so neither 423 nor 421 is ever
  returned.
\<close>

theorem series_always_succeed:
  assumes "file' smoapi \<noteq> None" and "len \<le> int (length b)"
  shows "(\<exists>s out. SMO_getSubcatchSeries smoapi i a t len (Some b) = Inr (0, s, Some out)) \<and>
         (\<exists>s out. SMO_getNodeSeries smoapi i a t len (Some b) = Inr (0, s, Some out)) \<and>
         (\<exists>s out. SMO_getLinkSeries smoapi i a t len (Some b) = Inr (0, s, Some out)) \<and>
         (\<exists>s out. SMO_getSystemSeries smoapi a t len (Some b) = Inr (0, s, Some out))"
  unfolding SMO_getSubcatchSeries_def SMO_getNodeSeries_def SMO_getLinkSeries_def
    SMO_getSystemSeries_def getSubcatchValue_def getNodeValue_def getLinkValue_def
    getSystemValue_def
  using assms by (intro conjI get_series_returns read_value_at_open)

theorem series_always_succeed_witness:
  "file' example_handle \<noteq> None \<and> (4 :: int) \<le> int (length no_values) \<and>
   (\<exists>s out. SMO_getSubcatchSeries example_handle 7 9 (-3) 4 (Some no_values) = Inr (0, s, Some out)) \<and>
   (\<exists>s out. SMO_getNodeSeries example_handle 7 9 (-3) 4 (Some no_values) = Inr (0, s, Some out)) \<and>
   (\<exists>s out. SMO_getLinkSeries example_handle 7 9 (-3) 4 (Some no_values) = Inr (0, s, Some out)) \<and>
   (\<exists>s out. SMO_getSystemSeries example_handle 9 (-3) 4 (Some no_values) = Inr (0, s, Some out))"
proof -
  have h: "file' example_handle \<noteq> None" "(4 :: int) \<le> int (length no_values)"
    by (simp_all add: example_handle_def no_values_def)
  from series_always_succeed [OF h, of 7 9 "-3"] h show ?thesis by simp
qed

subsection \<open>The allocator of series\<close>

lemma wrap32_in_range: "in_int32 x \<Longrightarrow> wrap32 x = x"
  by (simp add: wrap32_def in_int32_def)

lemma to_size_t_nonneg: "0 \<le> x \<Longrightarrow> x < 2 ^ 32 \<Longrightarrow> to_size_t x = nat x"
  by (simp add: to_size_t_def)

lemma to_size_t_neg: "x < 0 \<Longrightarrow> - (2 ^ 31) \<le> x \<Longrightarrow> 2 ^ 31 \<le> to_size_t x"
proof -
  assume a: "x < 0" "- (2 ^ 31) \<le> x"
  have "x mod 2 ^ 32 = x + 2 ^ 32"
    using a by (intro int_mod_pos_eq [of _ _ "-1"]) simp_all
  with a show ?thesis by (simp add: to_size_t_def)
qed

text \<open>
  C6 (as the code has it). On a handle whose file is open, \<open>SMO_newOutValueSeries\<close>
  reports the length \<open>n = min (seriesLength - seriesStart) Nperiods\<close>, also when this is
  zero or negative. When \<open>0 \<le> n\<close>, \<open>4 * n\<close> bytes fit \<^verbatim>\<open>size_t\<close> and the allocator grants
  them, it returns an array of exactly \<open>n\<close> floats, each of them zero, and the code 0. In
  every other case, a negative \<open>n\<close> among them, it returns the null pointer and the code
  411. The difference and the period count are values of a \<^verbatim>\<open>long\<close>.
\<close>

theorem new_value_series_result:
  fixes smoapi :: SMOutputAPI and seriesStart seriesLength :: int
  defines "n \<equiv> min (seriesLength - seriesStart) (Nperiods smoapi)"
  assumes "file' smoapi \<noteq> None"
    and "in_int32 (seriesLength - seriesStart)" and "in_int32 (Nperiods smoapi)"
  shows "SMO_newOutValueSeries heap smoapi seriesStart seriesLength len0 err0 =
           (if 0 \<le> n \<and> n < 2 ^ 30 \<and> heap (nat n * 4)
            then (Some (replicate (nat n) zero_float), n, 0)
            else (None, n, 411))"
proof -
  have n_range: "in_int32 n" using assms(3,4) by (auto simp: n_def in_int32_def min_def)
  have res: "SMO_newOutValueSeries heap smoapi seriesStart seriesLength len0 err0
      = (calloc heap (to_size_t n) 4 zero_float, n, MEMCHECK (calloc heap (to_size_t n) 4 zero_float))"
    using assms(2,3)
    by (auto simp: SMO_newOutValueSeries_def sub32_def wrap32_in_range Let_def n_def min_def)
  show ?thesis
  proof (cases "0 \<le> n")
    case True
    with n_range have "to_size_t n = nat n" by (intro to_size_t_nonneg) (simp_all add: in_int32_def)
    moreover have "nat n * 4 < 2 ^ 32 \<longleftrightarrow> n < 2 ^ 30" using True by auto
    ultimately show ?thesis using True by (simp add: res calloc_def MEMCHECK_def)
  next
    case False
    with n_range have "2 ^ 31 \<le> to_size_t n" by (intro to_size_t_neg) (simp_all add: in_int32_def)
    then have "\<not> to_size_t n * 4 < 2 ^ 32" by simp
    with False show ?thesis by (simp add: res calloc_def MEMCHECK_def)
  qed
qed

theorem new_value_series_result_witness:
  "file' example_handle \<noteq> None \<and> in_int32 (5 - 0) \<and> in_int32 (Nperiods example_handle) \<and>
   SMO_newOutValueSeries generous example_handle 0 5 0 0
     = (Some [zero_float, zero_float], 2, 0)"
proof -
  have h: "file' example_handle \<noteq> None" "in_int32 (5 - 0)" "in_int32 (Nperiods example_handle)"
    by (simp_all add: example_handle_def in_int32_def)
  have n: "min (5 - 0) (Nperiods example_handle) = 2" by (simp add: example_handle_def)
  from new_value_series_result [OF h, of generous 0 0] h show ?thesis
    unfolding n by (simp add: generous_def numeral_2_eq_2)
qed

text \<open>With the start behind the end the length is negative and no array comes back.\<close>

theorem new_value_series_result_counterexample:
  "SMO_newOutValueSeries generous example_handle 5 3 0 0 = (None, -2, 411)"
  by (simp add: SMO_newOutValueSeries_def example_handle_def sub32_def wrap32_def Let_def
      calloc_def to_size_t_def MEMCHECK_def)

subsection \<open>The order of the checks in validateFile\<close>

text \<open>
  C3 (as the code has it). For a file of at least 24 bytes whose leading magic equals its
  trailing magic and whose \<open>terminating_error\<close> field is not zero, \<open>SMO_open\<close> fails and
  frees the handle; the code is 435 when \<open>n_periods\<close> is positive and 436 when it is
  not, because \<open>validateFile\<close> tests the period count before the error field.
\<close>

theorem open_terminated_run:
  assumes "fs path = Some bs" and "24 \<le> length bs"
    and "leading_magic bs = epilogue_field bs 5" and "epilogue_field bs 4 \<noteq> 0"
  shows "SMO_open fs smoapi path = Inr (if epilogue_field bs 3 \<le> 0 then 436 else 435, None)"
proof -
  define s0 where "s0 = smoapi\<lparr>name := take MAXFILENAME path,
                               file' := Some \<lparr>content = bs, fpos = 0\<rparr>\<rparr>"
  have f: "file' s0 = Some \<lparr>content = bs, fpos = 0\<rparr>" by (simp add: s0_def)
  from validateFile_code [OF f] assms(2-4) obtain s where
    v: "validateFile s0 = Inr (if epilogue_field bs 3 \<le> 0 then 436 else 435, s)"
    and s: "file' s \<noteq> None"
    by auto
  show ?thesis
    using assms(1) v s unfolding SMO_open_def Let_def
    by (simp add: s0_def [symmetric] f SMO_close_def)
qed

theorem open_terminated_run_witness:
  "aborted_fs ''aborted.out'' = Some aborted_file \<and> 24 \<le> length aborted_file \<and>
   leading_magic aborted_file = epilogue_field aborted_file 5 \<and>
   epilogue_field aborted_file 4 \<noteq> 0 \<and>
   SMO_open aborted_fs closed_handle ''aborted.out''
     = Inr (if epilogue_field aborted_file 3 \<le> 0 then 436 else 435, None)"
proof -
  have h: "24 \<le> length aborted_file" "leading_magic aborted_file = epilogue_field aborted_file 5"
    "epilogue_field aborted_file 4 \<noteq> 0"
    by (simp_all add: aborted_file_def leading_magic_def epilogue_field_def int4_of_def le_uint_def
        wrap32_def)
  have fs: "aborted_fs ''aborted.out'' = Some aborted_file" by (simp add: aborted_fs_def)
  from open_terminated_run [where fs = aborted_fs and path = "''aborted.out''"
      and bs = aborted_file and smoapi = closed_handle] fs h
  show ?thesis by simp
qed

text \<open>The file of the aborted run has equal magic numbers and a non-zero error field, and
  opening it yields 436, not 435.\<close>

theorem open_terminated_run_counterexample:
  "leading_magic aborted_file = epilogue_field aborted_file 5 \<and>
   epilogue_field aborted_file 4 \<noteq> 0 \<and>
   SMO_open aborted_fs closed_handle ''aborted.out'' = Inr (436, None)"
  by code_simp

subsection \<open>Error messages\<close>

text \<open>
  C5 (as the code has it). For each of the codes 411, 412, 421, 434 and 435, and for
  \<open>0 \<le> n\<close> no larger than the buffer, \<open>SMO_errMessage\<close> stores exactly \<open>n\<close> characters in
  the buffer, the first \<open>n\<close> characters of the message of that code (NUL after the end of
  the message), and returns 0. For every code that is none of these and not 441 it returns
  421 and leaves the buffer as it was; this includes 423 and 436, for which the header
  defines no message.
\<close>

theorem error_message_codes:
  "(0 \<le> n \<and> n < 2 ^ 31 \<and> nat n \<le> length out \<longrightarrow>
      SMO_errMessage 411 (Some out) n
        = Inr (0, Some (take (nat n) (ERR411 @ replicate (nat n) NUL) @ drop (nat n) out)) \<and>
      SMO_errMessage 412 (Some out) n
        = Inr (0, Some (take (nat n) (ERR412 @ replicate (nat n) NUL) @ drop (nat n) out)) \<and>
      SMO_errMessage 421 (Some out) n
        = Inr (0, Some (take (nat n) (ERR421 @ replicate (nat n) NUL) @ drop (nat n) out)) \<and>
      SMO_errMessage 434 (Some out) n
        = Inr (0, Some (take (nat n) (ERR434 @ replicate (nat n) NUL) @ drop (nat n) out)) \<and>
      SMO_errMessage 435 (Some out) n
        = Inr (0, Some (take (nat n) (ERR435 @ replicate (nat n) NUL) @ drop (nat n) out))) \<and>
   (errcode \<notin> {411, 412, 421, 434, 435, 441} \<longrightarrow>
      SMO_errMessage errcode (Some out) n = Inr (421, Some out))"
proof -
  have "to_size_t n = nat n" if "0 \<le> n" "n < 2 ^ 31"
    using that by (intro to_size_t_nonneg) simp_all
  then show ?thesis by (simp add: SMO_errMessage_def strncpy_def Let_def)
qed

theorem error_message_codes_witness:
  "(0 :: int) \<le> 10 \<and> (10 :: int) < 2 ^ 31 \<and> nat 10 \<le> length blank_text \<and>
   SMO_errMessage 411 (Some blank_text) 10
     = Inr (0, Some (''Input Erro'' @ replicate 70 (CHR ''?''))) \<and>
   (423 :: int) \<notin> {411, 412, 421, 434, 435, 441} \<and>
   SMO_errMessage 423 (Some blank_text) 10 = Inr (421, Some blank_text)"
proof -
  have h: "(0 :: int) \<le> 10 \<and> (10 :: int) < 2 ^ 31 \<and> nat 10 \<le> length blank_text"
    by (simp add: blank_text_def)
  have cut: "take (nat 10) (ERR411 @ replicate (nat 10) NUL) @ drop (nat 10) blank_text
      = ''Input Erro'' @ replicate 70 (CHR ''?'')"
    by (simp add: ERR411_def blank_text_def)
  from error_message_codes [of 10 blank_text 423] h show ?thesis
    unfolding cut by simp
qed

text \<open>Code 436 is answered with 421 and no message.\<close>

theorem error_message_codes_counterexample:
  "SMO_errMessage 436 (Some blank_text) 80 = Inr (421, Some blank_text)"
  by (simp add: SMO_errMessage_def Let_def)

subsection \<open>Operations on a handle without a file\<close>

text \<open>
  C4. After \<open>SMO_open\<close> has failed with 434 the handle is still there and its file is
  null. \<open>SMO_getElementName\<close> on it does not return 412: it has no check of the file, finds
  no element names, and \<open>initElementNames\<close> seeks on the null stream.
\<close>

theorem element_name_after_failed_open:
  "SMO_open empty_fs closed_handle ''missing.out'' = Inr (434, Some closed_handle) \<and>
   file' closed_handle = None \<and>
   SMO_getElementName generous closed_handle 0 0 (Some blank_name) 10 = Inl NullStream"
  by (simp add: SMO_open_def SMO_close_def closed_handle_def SMO_getElementName_def
      initElementNames_def Let_def empty_fs_def)

text \<open>
  C7. \<open>SMO_getSystemResult\<close> against \<open>SMO_getLinkResult\<close>. With a null out-array on an
  open handle the link function returns 411 and leaves the handle as it was, the system
  function seeks and reads a record through the null pointer. With a null file the link
  function returns 412, the system function seeks on the null stream.
\<close>

theorem system_result_runs_its_block:
  "SMO_getLinkResult example_handle 0 0 None = Inr (411, example_handle, None) \<and>
   SMO_getSystemResult example_handle 0 None = Inl NullBuffer \<and>
   SMO_getLinkResult closed_handle 0 0 (Some no_values) = Inr (412, closed_handle, Some no_values) \<and>
   SMO_getSystemResult closed_handle 0 (Some no_values) = Inl NullStream"
proof -
  have a: "SMO_getLinkResult example_handle 0 0 None = Inr (411, example_handle, None)"
    by (simp add: SMO_getLinkResult_def example_handle_def)
  have b: "SMO_getLinkResult closed_handle 0 0 (Some no_values) = Inr (412, closed_handle, Some no_values)"
    by (simp add: SMO_getLinkResult_def closed_handle_def)
  have c: "SMO_getSystemResult closed_handle 0 (Some no_values) = Inl NullStream"
    by (simp add: SMO_getSystemResult_def read_result_def closed_handle_def)
  have off: "system_result_offset example_handle 0 = 199"
    by (simp add: system_result_offset_def period_offset_def example_handle_def add64_def mul64_def
        add32_def mul32_def wrap32_def wrap64_def)
  have len: "length example_file = 255" by (simp add: example_file_def)
  have rd: "fread \<lparr>content = example_file, fpos = 199\<rparr> 4 (Suc 0)
      = ([take 4 (drop 199 example_file)], False, \<lparr>content = example_file, fpos = 203\<rparr>)"
    by (simp add: fread_def Let_def len)
  have d: "SMO_getSystemResult example_handle 0 None = Inl NullBuffer"
    unfolding SMO_getSystemResult_def read_result_def off Let_def
    by (simp add: example_handle_def fseeko64_def fread_array_def to_size_t_def rd)
  from a b c d show ?thesis by simp
qed

subsection \<open>Wrap-around arithmetic and exact offsets\<close>

lemma bindF_eq_Inr: "bindF m k = Inr y \<longleftrightarrow> (\<exists>x. m = Inr x \<and> k x = Inr y)"
  by (cases m) (simp_all add: bindF_def)

lemma read_parameters_bytes:
  assumes "read_parameters s = Inr h"
  shows "BytesPerPeriod h =
           add32 DATESIZE
             (mul32 (add32 (add32 (add32 (mul32 (Nsubcatch h) (SubcatchVars h))
                                         (mul32 (Nnodes h) (NodeVars h)))
                                  (mul32 (Nlinks h) (LinkVars h)))
                           (SysVars h))
                    RECORDSIZE)"
  using assms unfolding read_parameters_def Let_def
  by (auto simp: bindF_eq_Inr split: option.splits)

lemma open_success:
  assumes "SMO_open fs s0 path = Inr (0, Some h)"
  shows "\<exists>s. read_parameters s = Inr h"
  using assms unfolding SMO_open_def Let_def
  by (auto simp: bindF_eq_Inr split: if_splits)

lemma wrap32_cong: "x mod 2 ^ 32 = y mod 2 ^ 32 \<Longrightarrow> wrap32 x = wrap32 y"
  unfolding wrap32_def by (metis mod_add_cong)

lemma wrap32_mod: "wrap32 x mod 2 ^ 32 = x mod 2 ^ 32"
proof -
  have "wrap32 x mod 2 ^ 32 = ((x + 2 ^ 31) mod 2 ^ 32 - 2 ^ 31) mod 2 ^ 32"
    by (simp add: wrap32_def)
  also have "\<dots> = (x + 2 ^ 31 - 2 ^ 31) mod 2 ^ 32" by (rule mod_diff_left_eq)
  finally show ?thesis by simp
qed

lemma wrap32_add_left: "wrap32 (wrap32 a + b) = wrap32 (a + b)"
  by (rule wrap32_cong) (metis mod_add_left_eq wrap32_mod)

lemma wrap32_add_right: "wrap32 (a + wrap32 b) = wrap32 (a + b)"
  by (rule wrap32_cong) (metis mod_add_right_eq wrap32_mod)

lemma wrap32_mult_left: "wrap32 (wrap32 a * b) = wrap32 (a * b)"
  by (rule wrap32_cong) (metis mod_mult_left_eq wrap32_mod)

lemma wrap32_mult_right: "wrap32 (a * wrap32 b) = wrap32 (a * b)"
  by (rule wrap32_cong) (metis mod_mult_right_eq wrap32_mod)

lemmas wrap32_simps = add32_def mul32_def wrap32_add_left wrap32_add_right wrap32_mult_left
  wrap32_mult_right

lemma wrap64_in_range: "in_int64 x \<Longrightarrow> wrap64 x = x"
  by (simp add: wrap64_def in_int64_def)

lemma wrap64_cong: "x mod 2 ^ 64 = y mod 2 ^ 64 \<Longrightarrow> wrap64 x = wrap64 y"
  unfolding wrap64_def by (metis mod_add_cong)

lemma wrap64_mod: "wrap64 x mod 2 ^ 64 = x mod 2 ^ 64"
proof -
  have "wrap64 x mod 2 ^ 64 = ((x + 2 ^ 63) mod 2 ^ 64 - 2 ^ 63) mod 2 ^ 64"
    by (simp add: wrap64_def)
  also have "\<dots> = (x + 2 ^ 63 - 2 ^ 63) mod 2 ^ 64" by (rule mod_diff_left_eq)
  finally show ?thesis by simp
qed

lemma wrap64_add_left: "wrap64 (wrap64 a + b) = wrap64 (a + b)"
  by (rule wrap64_cong) (metis mod_add_left_eq wrap64_mod)

lemma wrap64_add_right: "wrap64 (a + wrap64 b) = wrap64 (a + b)"
  by (rule wrap64_cong) (metis mod_add_right_eq wrap64_mod)

lemma wrap64_mult_right: "wrap64 (a * wrap64 b) = wrap64 (a * b)"
  by (rule wrap64_cong) (metis mod_mult_right_eq wrap64_mod)

lemmas wrap64_simps = add64_def mul64_def wrap64_add_left wrap64_add_right wrap64_mult_right

text \<open>The exact values of the wrapped expressions.\<close>

lemma bytes_per_period_exact:
  assumes "in_int32 (8 + 4 * (ns * vs + nn * vn + nl * vl + vsys))"
  shows "add32 DATESIZE (mul32 (add32 (add32 (add32 (mul32 ns vs) (mul32 nn vn)) (mul32 nl vl)) vsys)
           RECORDSIZE) = 8 + 4 * (ns * vs + nn * vn + nl * vl + vsys)"
proof -
  have "add32 DATESIZE (mul32 (add32 (add32 (add32 (mul32 ns vs) (mul32 nn vn)) (mul32 nl vl)) vsys)
           RECORDSIZE) = wrap32 (8 + (ns * vs + nn * vn + nl * vl + vsys) * 4)"
    by (simp only: wrap32_simps)
  also have "\<dots> = 8 + 4 * (ns * vs + nn * vn + nl * vl + vsys)"
    using assms by (simp add: wrap32_in_range mult.commute)
  finally show ?thesis .
qed

lemma link_value_offset_exact:
  assumes "in_int32 (4 * (Nsubcatch h * SubcatchVars h + Nnodes h * NodeVars h + i * LinkVars h + a))"
    and "in_int64 (ResultsPos h + p * BytesPerPeriod h + 8
           + 4 * (Nsubcatch h * SubcatchVars h + Nnodes h * NodeVars h + i * LinkVars h + a))"
  shows "link_value_offset h p i a
       = ResultsPos h + p * BytesPerPeriod h + 8
           + 4 * (Nsubcatch h * SubcatchVars h + Nnodes h * NodeVars h + i * LinkVars h + a)"
proof -
  have "mul32 RECORDSIZE (add32 (add32 (add32 (mul32 (Nsubcatch h) (SubcatchVars h))
            (mul32 (Nnodes h) (NodeVars h))) (mul32 i (LinkVars h))) a)
      = wrap32 (4 * (Nsubcatch h * SubcatchVars h + Nnodes h * NodeVars h + i * LinkVars h + a))"
    by (simp only: wrap32_simps)
  also have "\<dots> = 4 * (Nsubcatch h * SubcatchVars h + Nnodes h * NodeVars h + i * LinkVars h + a)"
    using assms(1) by (rule wrap32_in_range)
  finally have inner: "mul32 RECORDSIZE (add32 (add32 (add32 (mul32 (Nsubcatch h) (SubcatchVars h))
            (mul32 (Nnodes h) (NodeVars h))) (mul32 i (LinkVars h))) a)
      = 4 * (Nsubcatch h * SubcatchVars h + Nnodes h * NodeVars h + i * LinkVars h + a)" .
  have "link_value_offset h p i a
      = wrap64 (ResultsPos h + p * BytesPerPeriod h + 2 * 4
          + 4 * (Nsubcatch h * SubcatchVars h + Nnodes h * NodeVars h + i * LinkVars h + a))"
    unfolding link_value_offset_def period_offset_def inner by (simp only: wrap64_simps)
  also have "\<dots> = ResultsPos h + p * BytesPerPeriod h + 8
          + 4 * (Nsubcatch h * SubcatchVars h + Nnodes h * NodeVars h + i * LinkVars h + a)"
    using assms(2) by (simp add: wrap64_in_range)
  finally show ?thesis .
qed

lemma read_value_at_in_file:
  assumes "file' h = Some f" and "0 \<le> off" and "off + 4 \<le> int (length (content f))"
  shows "read_value_at h off
       = Inr (Some (take 4 (drop (nat off) (content f))), h\<lparr>file' := Some (f\<lparr>fpos := nat off + 4\<rparr>)\<rparr>)"
proof -
  have seek: "fseeko64 f off SEEK_SET = f\<lparr>fpos := nat off\<rparr>"
    using assms(2) by (simp add: fseeko64_def)
  have "fread1 (f\<lparr>fpos := nat off\<rparr>) 4
      = (Some (take 4 (drop (nat off) (content f))), f\<lparr>fpos := nat off + 4\<rparr>)"
    using assms(2,3) fread1_full [of "f\<lparr>fpos := nat off\<rparr>" 4] by simp
  then show ?thesis
    by (simp add: read_value_at_def assms(1) seek)
qed

subsection \<open>Series, attribute and result of one value\<close>

lemma series_one:
  assumes "get h p = Inr (v, h')" "in_int32 p" "file' h \<noteq> None" "0 < length b"
  shows "get_series get h p 1 (Some b) = Inr (0, h', Some (b[0 := v]))"
proof -
  have "series_loop get h' p 1 1 (b[0 := v]) = Inr (h', b[0 := v])"
    by (subst series_loop.simps) simp
  then have "series_loop get h p 1 0 b = Inr (h', b[0 := v])"
    using assms(1,2,4) by (subst series_loop.simps) (simp add: add32_def wrap32_in_range store_def)
  with assms(3) show ?thesis by (simp add: get_series_def)
qed

lemma attribute_loop_values:
  "(\<And>g k. get (h\<lparr>file' := Some g\<rparr>) k = read_value_at (h\<lparr>file' := Some g\<rparr>) (off k)) \<Longrightarrow>
   (\<And>k. k0 \<le> k \<Longrightarrow> k < n \<Longrightarrow> 0 \<le> off k \<and> off k + 4 \<le> int (length (content f))) \<Longrightarrow>
   content g = content f \<Longrightarrow> 0 \<le> k0 \<Longrightarrow> n \<le> int (length out) \<Longrightarrow>
   \<exists>g' out'. attribute_loop get (h\<lparr>file' := Some g\<rparr>) n k0 out = Inr (h\<lparr>file' := Some g'\<rparr>, out')
      \<and> content g' = content f \<and> length out' = length out
      \<and> (\<forall>j < length out. out' ! j = (if k0 \<le> int j \<and> int j < n
                         then Some (take 4 (drop (nat (off (int j))) (content f)))
                         else out ! j))"
proof (induction get "h\<lparr>file' := Some g\<rparr>" n k0 out arbitrary: g rule: attribute_loop.induct)
  case (1 get n k out)
  show ?case
  proof (cases "k < n")
    case True
    define v where "v = Some (take 4 (drop (nat (off k)) (content f)))"
    define g1 where "g1 = g\<lparr>fpos := nat (off k) + 4\<rparr>"
    have inf: "0 \<le> off k" "off k + 4 \<le> int (length (content g))"
      using "1.prems"(2) [of k] True "1.prems"(3) by simp_all
    have rd: "get (h\<lparr>file' := Some g\<rparr>) k = Inr (v, h\<lparr>file' := Some g1\<rparr>)"
      unfolding "1.prems"(1) v_def g1_def
      using read_value_at_in_file [of "h\<lparr>file' := Some g\<rparr>" g "off k"] inf "1.prems"(3)
      by simp
    have kl: "nat k < length out" using True "1.prems"(4,5) by simp
    have st: "store out k v = Inr (out[nat k := v])"
      using "1.prems"(4) kl by (rule store_in_array)
    have c1: "content g1 = content f" using "1.prems"(3) by (simp add: g1_def)
    have "\<exists>g' out'. attribute_loop get (h\<lparr>file' := Some g1\<rparr>) n (k + 1) (out[nat k := v])
            = Inr (h\<lparr>file' := Some g'\<rparr>, out')
        \<and> content g' = content f \<and> length out' = length (out[nat k := v])
        \<and> (\<forall>j < length (out[nat k := v]). out' ! j = (if k + 1 \<le> int j \<and> int j < n
                           then Some (take 4 (drop (nat (off (int j))) (content f)))
                           else (out[nat k := v]) ! j))"
      using "1.prems"(4,5)
      by (intro "1.hyps" [OF True rd refl st] "1.prems"(1) "1.prems"(2) c1) simp_all
    then obtain g' out' where
      loop: "attribute_loop get (h\<lparr>file' := Some g1\<rparr>) n (k + 1) (out[nat k := v])
            = Inr (h\<lparr>file' := Some g'\<rparr>, out')"
      and c': "content g' = content f" and l': "length out' = length out"
      and vals: "\<forall>j < length out. out' ! j = (if k + 1 \<le> int j \<and> int j < n
                           then Some (take 4 (drop (nat (off (int j))) (content f)))
                           else (out[nat k := v]) ! j)"
      by auto
    have "attribute_loop get (h\<lparr>file' := Some g\<rparr>) n k out = Inr (h\<lparr>file' := Some g'\<rparr>, out')"
      using True rd st loop by (subst attribute_loop.simps) simp
    moreover have "out' ! j = (if k \<le> int j \<and> int j < n
                           then Some (take 4 (drop (nat (off (int j))) (content f)))
                           else out ! j)" if j: "j < length out" for j
    proof (cases "int j = k")
      case True
      then have "nat k = j" by simp
      with True vals j \<open>k < n\<close> show ?thesis by (simp add: v_def)
    next
      case False
      then have "nat k \<noteq> j" using "1.prems"(4) by auto
      with False vals j show ?thesis by auto
    qed
    ultimately show ?thesis using c' l' by blast
  next
    case False
    then have "attribute_loop get (h\<lparr>file' := Some g\<rparr>) n k out = Inr (h\<lparr>file' := Some g\<rparr>, out)"
      by (subst attribute_loop.simps) simp
    with False "1.prems"(3) show ?thesis by auto
  qed
qed

lemma read_result_values:
  assumes f: "file' h = Some f" and off: "0 \<le> off" "off + 4 * vars \<le> int (length (content f))"
    and vars: "vars < 2 ^ 32" and a: "0 \<le> a" "a < vars" and room: "nat vars \<le> length b"
  shows "\<exists>h' out'. read_result 0 h off vars (Some b) = Inr (0, h', Some out')
           \<and> out' ! nat a = Some (take 4 (drop (nat (off + 4 * a)) (content f)))"
proof -
  define g where "g = f\<lparr>fpos := nat off\<rparr>"
  define avail where "avail = drop (nat off) (content f)"
  define items where "items = map (\<lambda>j. take 4 (drop (j * 4) avail)) [0..<nat vars]"
  have seek: "fseeko64 f off SEEK_SET = g" using off(1) by (simp add: fseeko64_def g_def)
  have sz: "to_size_t vars = nat vars" using a vars by (intro to_size_t_nonneg) simp_all
  have la: "4 * nat vars \<le> length avail" using off a by (simp add: avail_def)
  then have k: "min (nat vars) (length avail div 4) = nat vars" by simp
  have fr: "fread g 4 (nat vars) = (items, False, g\<lparr>fpos := fpos g + min (nat vars * 4) (length avail)\<rparr>)"
    by (simp add: fread_def Let_def g_def avail_def [symmetric] k items_def)
  have li: "length items = nat vars" by (simp add: items_def)
  have lt: "nat a < length items" using a by (simp add: li)
  have "items ! nat a = take 4 (drop (nat a * 4) avail)"
    using a by (simp add: items_def)
  also have "drop (nat a * 4) avail = drop (nat (off + 4 * a)) (content f)"
    using off(1) a(1) by (simp add: avail_def nat_add_distrib nat_mult_distrib add.commute mult.commute)
  finally have ia: "items ! nat a = take 4 (drop (nat (off + 4 * a)) (content f))" .
  have "(map Some items @ drop (length items) b) ! nat a = Some (items ! nat a)"
    using lt by (simp add: nth_append)
  then show ?thesis
    unfolding read_result_def f option.case Let_def seek
    using room by (simp add: fread_array_def sz fr ia li)
qed

lemma index_slot:
  fixes i n a v :: int
  assumes "0 \<le> i" "i < n" "0 \<le> a" "a < v"
  shows "0 \<le> i * v" "i * v + v \<le> n * v" "v \<le> n * v"
proof -
  have v: "0 \<le> v" using assms by simp
  show "0 \<le> i * v" using assms(1) v by simp
  have "(i + 1) * v \<le> n * v" using assms(2) v by (intro mult_right_mono) simp_all
  then show "i * v + v \<le> n * v" by (simp add: algebra_simps)
  have "1 * v \<le> n * v" using assms(1,2) v by (intro mult_right_mono) simp_all
  then show "v \<le> n * v" by simp
qed

lemma slot_in_file:
  assumes wf: "well_formed h f" and p: "period_in_file h f p"
    and x: "0 \<le> x" "x + m \<le> values_per_period h" "0 \<le> m"
  shows "in_int32 (4 * x)" "in_int64 (slot_offset h p x)" "0 \<le> slot_offset h p x"
    "slot_offset h p x + 4 * m \<le> int (length (content f))"
proof -
  have bpp: "BytesPerPeriod h = 8 + 4 * values_per_period h" "in_int32 (BytesPerPeriod h)"
    and r: "0 \<le> ResultsPos h" and len: "int (length (content f)) < 2 ^ 63"
    using wf by (auto simp: well_formed_def)
  have p0: "0 \<le> p" and fit: "ResultsPos h + (p + 1) * BytesPerPeriod h \<le> int (length (content f))"
    using p by (simp_all add: period_in_file_def)
  have b0: "0 \<le> BytesPerPeriod h" using bpp(1) x by simp
  have pb: "0 \<le> p * BytesPerPeriod h" using p0 b0 by simp
  show "in_int32 (4 * x)" using bpp x by (simp add: in_int32_def)
  have top: "slot_offset h p x + 4 * m \<le> ResultsPos h + (p + 1) * BytesPerPeriod h"
    using x bpp(1) by (simp add: slot_offset_def algebra_simps)
  show nonneg: "0 \<le> slot_offset h p x" using r pb x by (simp add: slot_offset_def)
  show fits: "slot_offset h p x + 4 * m \<le> int (length (content f))" using top fit by simp
  show "in_int64 (slot_offset h p x)" using nonneg fits len x(3) by (simp add: in_int64_def)
qed

lemma period_offset_slot:
  assumes "in_int32 y" "in_int64 (slot_offset h p x)" "y = 4 * x"
  shows "add64 (period_offset h p) (wrap32 y) = slot_offset h p x"
proof -
  have "add64 (period_offset h p) (wrap32 y) = wrap64 (ResultsPos h + p * BytesPerPeriod h + 2 * 4 + y)"
    unfolding period_offset_def wrap32_in_range [OF assms(1)] by (simp only: wrap64_simps)
  also have "\<dots> = slot_offset h p x"
    using assms(2,3) by (simp add: slot_offset_def wrap64_in_range)
  finally show ?thesis .
qed

lemma handle_file_same: "file' h = Some f \<Longrightarrow> h\<lparr>file' := Some f\<rparr> = h"
  by (cases h) simp

lemma slot_offset_add: "slot_offset h p x + 4 * a = slot_offset h p (x + a)"
  by (simp add: slot_offset_def)

lemma products_nonneg:
  assumes "well_formed h f"
  shows "0 \<le> Nsubcatch h * SubcatchVars h" "0 \<le> Nnodes h * NodeVars h"
    "0 \<le> Nlinks h * LinkVars h" "0 \<le> SysVars h"
  using assms by (simp_all add: well_formed_def)

lemma link_value_offset_slot:
  assumes wf: "well_formed h f" and pif: "period_in_file h f p"
    and ia: "0 \<le> i" "i < Nlinks h" "0 \<le> a" "a < LinkVars h"
  defines "x \<equiv> Nsubcatch h * SubcatchVars h + Nnodes h * NodeVars h + i * LinkVars h + a"
  shows "link_value_offset (h\<lparr>file' := g\<rparr>) p i a = slot_offset h p x"
    and "0 \<le> slot_offset h p x" and "slot_offset h p x + 4 \<le> int (length (content f))"
proof -
  note nn = products_nonneg [OF wf] and ix = index_slot [OF ia]
  have x: "0 \<le> x" "x + 1 \<le> values_per_period h"
    using nn ix ia by (simp_all add: x_def values_per_period_def)
  from slot_in_file [OF wf pif x] show "0 \<le> slot_offset h p x"
    and "slot_offset h p x + 4 \<le> int (length (content f))" by simp_all
  have "mul32 RECORDSIZE (add32 (add32 (add32 (mul32 (Nsubcatch h) (SubcatchVars h))
            (mul32 (Nnodes h) (NodeVars h))) (mul32 i (LinkVars h))) a) = wrap32 (4 * x)"
    unfolding x_def by (simp only: wrap32_simps)
  moreover have "period_offset (h\<lparr>file' := g\<rparr>) p = period_offset h p"
    by (simp add: period_offset_def)
  ultimately show "link_value_offset (h\<lparr>file' := g\<rparr>) p i a = slot_offset h p x"
    using slot_in_file(1,2) [OF wf pif x] by (simp add: link_value_offset_def period_offset_slot)
qed

lemma link_result_offset_slot:
  assumes wf: "well_formed h f" and pif: "period_in_file h f p"
    and ia: "0 \<le> i" "i < Nlinks h" "0 \<le> a" "a < LinkVars h"
  defines "x \<equiv> Nsubcatch h * SubcatchVars h + Nnodes h * NodeVars h + i * LinkVars h"
  shows "link_result_offset h p i = slot_offset h p x"
    and "0 \<le> slot_offset h p x"
    and "slot_offset h p x + 4 * LinkVars h \<le> int (length (content f))"
    and "LinkVars h < 2 ^ 32"
proof -
  note nn = products_nonneg [OF wf] and ix = index_slot [OF ia]
  have x: "0 \<le> x" "x + LinkVars h \<le> values_per_period h" "0 \<le> LinkVars h"
    using nn ix ia by (simp_all add: x_def values_per_period_def)
  from slot_in_file [OF wf pif x] show "0 \<le> slot_offset h p x"
    and "slot_offset h p x + 4 * LinkVars h \<le> int (length (content f))" by simp_all
  have "mul32 (add32 (add32 (mul32 (Nsubcatch h) (SubcatchVars h))
            (mul32 (Nnodes h) (NodeVars h))) (mul32 i (LinkVars h))) RECORDSIZE = wrap32 (x * 4)"
    unfolding x_def by (simp only: wrap32_simps)
  then show "link_result_offset h p i = slot_offset h p x"
    using slot_in_file(1,2) [OF wf pif x] by (simp add: link_result_offset_def period_offset_slot mult.commute)
  have "in_int32 (BytesPerPeriod h)" "BytesPerPeriod h = 8 + 4 * values_per_period h"
    using wf by (auto simp: well_formed_def)
  with x show "LinkVars h < 2 ^ 32" by (simp add: in_int32_def)
qed

lemma link_duality:
  assumes wf: "well_formed h f" and pif: "period_in_file h f p"
    and ia: "0 \<le> i" "i < Nlinks h" "0 \<le> a" "a < LinkVars h"
    and room: "0 < length b1" "nat (Nlinks h) \<le> length b2" "nat (LinkVars h) \<le> length b3"
  shows "\<exists>v s1 s2 s3 o1 o2 o3.
           SMO_getLinkSeries h i a p 1 (Some b1) = Inr (0, s1, Some o1) \<and>
           SMO_getLinkAttribute h p a (Some b2) = Inr (0, s2, Some o2) \<and>
           SMO_getLinkResult h p i (Some b3) = Inr (0, s3, Some o3) \<and>
           o1 ! 0 = Some v \<and> o2 ! nat i = Some v \<and> o3 ! nat a = Some v"
proof -
  define x where "x = Nsubcatch h * SubcatchVars h + Nnodes h * NodeVars h + i * LinkVars h"
  define v where "v = take 4 (drop (nat (slot_offset h p (x + a))) (content f))"
  have f: "file' h = Some f" using wf by (simp add: well_formed_def)
  have p32: "in_int32 p" using pif by (simp add: period_in_file_def)
  have vo: "link_value_offset h p k a
        = slot_offset h p (Nsubcatch h * SubcatchVars h + Nnodes h * NodeVars h + k * LinkVars h + a)"
      "0 \<le> link_value_offset h p k a"
      "link_value_offset h p k a + 4 \<le> int (length (content f))"
    if "0 \<le> k" "k < Nlinks h" for k
    using link_value_offset_slot(1) [OF wf pif that ia(3,4), of "file' h"]
      link_value_offset_slot(2,3) [OF wf pif that ia(3,4)] by simp_all
  \<comment> \<open>the series of length one\<close>
  have "getLinkValue h p i a = Inr (Some v, h\<lparr>file' := Some (f\<lparr>fpos := nat (slot_offset h p (x + a)) + 4\<rparr>)\<rparr>)"
    using vo [OF ia(1,2)] read_value_at_in_file [OF f, of "slot_offset h p (x + a)"]
    by (simp add: getLinkValue_def x_def v_def add.assoc)
  then have "\<exists>s1. SMO_getLinkSeries h i a p 1 (Some b1) = Inr (0, s1, Some (b1[0 := Some v]))"
    using p32 f room(1) by (simp add: SMO_getLinkSeries_def series_one)
  then have s: "\<exists>s1 o1. SMO_getLinkSeries h i a p 1 (Some b1) = Inr (0, s1, Some o1) \<and> o1 ! 0 = Some v"
    using room(1) by auto
  \<comment> \<open>the attribute across the links\<close>
  have "\<exists>g' out'. attribute_loop (\<lambda>s k. getLinkValue s p k a) (h\<lparr>file' := Some f\<rparr>) (Nlinks h) 0 b2
          = Inr (h\<lparr>file' := Some g'\<rparr>, out') \<and> content g' = content f
        \<and> length out' = length b2
        \<and> (\<forall>j < length b2. out' ! j = (if 0 \<le> int j \<and> int j < Nlinks h
                then Some (take 4 (drop (nat (link_value_offset h p (int j) a)) (content f)))
                else b2 ! j))"
  proof (rule attribute_loop_values)
    show "getLinkValue (h\<lparr>file' := Some g\<rparr>) p k a
        = read_value_at (h\<lparr>file' := Some g\<rparr>) (link_value_offset h p k a)" for g k
      by (simp add: getLinkValue_def link_value_offset_def period_offset_def)
    show "0 \<le> link_value_offset h p k a \<and> link_value_offset h p k a + 4 \<le> int (length (content f))"
      if "0 \<le> k" "k < Nlinks h" for k
      using vo(2,3) [OF that] by simp
    show "Nlinks h \<le> int (length b2)" using room(2) by simp
  qed simp_all
  then obtain g' out' where
    loop: "attribute_loop (\<lambda>s k. getLinkValue s p k a) h (Nlinks h) 0 b2 = Inr (h\<lparr>file' := Some g'\<rparr>, out')"
    and vals: "\<And>j. j < length b2 \<Longrightarrow> out' ! j = (if 0 \<le> int j \<and> int j < Nlinks h
                then Some (take 4 (drop (nat (link_value_offset h p (int j) a)) (content f)))
                else b2 ! j)"
    by (auto simp: handle_file_same [OF f])
  have "nat i < length b2" using ia(1,2) room(2) by simp
  then have "out' ! nat i = Some v"
    using vals [of "nat i"] ia vo(1) [OF ia(1,2)] by (simp add: v_def x_def add.assoc)
  then have t: "\<exists>s2 o2. SMO_getLinkAttribute h p a (Some b2) = Inr (0, s2, Some o2) \<and> o2 ! nat i = Some v"
    using loop f by (simp add: SMO_getLinkAttribute_def get_attribute_def)
  \<comment> \<open>the result of the link\<close>
  note ro = link_result_offset_slot [OF wf pif ia]
  from read_result_values [OF f ro(2) ro(3) ro(4) ia(3,4) room(3)]
  have r: "\<exists>s3 o3. SMO_getLinkResult h p i (Some b3) = Inr (0, s3, Some o3) \<and> o3 ! nat a = Some v"
    using f by (simp add: SMO_getLinkResult_def ro(1) slot_offset_add v_def x_def)
  from s t r show ?thesis by blast
qed


lemma node_value_offset_slot:
  assumes wf: "well_formed h f" and pif: "period_in_file h f p"
    and ia: "0 \<le> i" "i < Nnodes h" "0 \<le> a" "a < NodeVars h"
  defines "x \<equiv> Nsubcatch h * SubcatchVars h + i * NodeVars h + a"
  shows "node_value_offset (h\<lparr>file' := g\<rparr>) p i a = slot_offset h p x"
    and "0 \<le> slot_offset h p x" and "slot_offset h p x + 4 \<le> int (length (content f))"
proof -
  note nn = products_nonneg [OF wf] and ix = index_slot [OF ia]
  have x: "0 \<le> x" "x + 1 \<le> values_per_period h"
    using nn ix ia by (simp_all add: x_def values_per_period_def)
  from slot_in_file [OF wf pif x] show "0 \<le> slot_offset h p x"
    and "slot_offset h p x + 4 \<le> int (length (content f))" by simp_all
  have "mul32 RECORDSIZE (add32 (add32 (mul32 (Nsubcatch h) (SubcatchVars h))
            (mul32 i (NodeVars h))) a) = wrap32 (4 * x)"
    unfolding x_def by (simp only: wrap32_simps)
  moreover have "period_offset (h\<lparr>file' := g\<rparr>) p = period_offset h p"
    by (simp add: period_offset_def)
  ultimately show "node_value_offset (h\<lparr>file' := g\<rparr>) p i a = slot_offset h p x"
    using slot_in_file(1,2) [OF wf pif x] by (simp add: node_value_offset_def period_offset_slot)
qed

lemma node_result_offset_slot:
  assumes wf: "well_formed h f" and pif: "period_in_file h f p"
    and ia: "0 \<le> i" "i < Nnodes h" "0 \<le> a" "a < NodeVars h"
  defines "x \<equiv> Nsubcatch h * SubcatchVars h + i * NodeVars h"
  shows "node_result_offset h p i = slot_offset h p x"
    and "0 \<le> slot_offset h p x"
    and "slot_offset h p x + 4 * NodeVars h \<le> int (length (content f))"
    and "NodeVars h < 2 ^ 32"
proof -
  note nn = products_nonneg [OF wf] and ix = index_slot [OF ia]
  have x: "0 \<le> x" "x + NodeVars h \<le> values_per_period h" "0 \<le> NodeVars h"
    using nn ix ia by (simp_all add: x_def values_per_period_def)
  from slot_in_file [OF wf pif x] show "0 \<le> slot_offset h p x"
    and "slot_offset h p x + 4 * NodeVars h \<le> int (length (content f))" by simp_all
  have "mul32 (add32 (mul32 (Nsubcatch h) (SubcatchVars h)) (mul32 i (NodeVars h))) RECORDSIZE = wrap32 (x * 4)"
    unfolding x_def by (simp only: wrap32_simps)
  then show "node_result_offset h p i = slot_offset h p x"
    using slot_in_file(1,2) [OF wf pif x] by (simp add: node_result_offset_def period_offset_slot mult.commute)
  have "in_int32 (BytesPerPeriod h)" "BytesPerPeriod h = 8 + 4 * values_per_period h"
    using wf by (auto simp: well_formed_def)
  with x show "NodeVars h < 2 ^ 32" by (simp add: in_int32_def)
qed

lemma node_duality:
  assumes wf: "well_formed h f" and pif: "period_in_file h f p"
    and ia: "0 \<le> i" "i < Nnodes h" "0 \<le> a" "a < NodeVars h"
    and room: "0 < length b1" "nat (Nnodes h) \<le> length b2" "nat (NodeVars h) \<le> length b3"
  shows "\<exists>v s1 s2 s3 o1 o2 o3.
           SMO_getNodeSeries h i a p 1 (Some b1) = Inr (0, s1, Some o1) \<and>
           SMO_getNodeAttribute h p a (Some b2) = Inr (0, s2, Some o2) \<and>
           SMO_getNodeResult h p i (Some b3) = Inr (0, s3, Some o3) \<and>
           o1 ! 0 = Some v \<and> o2 ! nat i = Some v \<and> o3 ! nat a = Some v"
proof -
  define x where "x = Nsubcatch h * SubcatchVars h + i * NodeVars h"
  define v where "v = take 4 (drop (nat (slot_offset h p (x + a))) (content f))"
  have f: "file' h = Some f" using wf by (simp add: well_formed_def)
  have p32: "in_int32 p" using pif by (simp add: period_in_file_def)
  have vo: "node_value_offset h p k a
        = slot_offset h p (Nsubcatch h * SubcatchVars h + k * NodeVars h + a)"
      "0 \<le> node_value_offset h p k a"
      "node_value_offset h p k a + 4 \<le> int (length (content f))"
    if "0 \<le> k" "k < Nnodes h" for k
    using node_value_offset_slot(1) [OF wf pif that ia(3,4), of "file' h"]
      node_value_offset_slot(2,3) [OF wf pif that ia(3,4)] by simp_all
  \<comment> \<open>the series of length one\<close>
  have "getNodeValue h p i a = Inr (Some v, h\<lparr>file' := Some (f\<lparr>fpos := nat (slot_offset h p (x + a)) + 4\<rparr>)\<rparr>)"
    using vo [OF ia(1,2)] read_value_at_in_file [OF f, of "slot_offset h p (x + a)"]
    by (simp add: getNodeValue_def x_def v_def add.assoc)
  then have "\<exists>s1. SMO_getNodeSeries h i a p 1 (Some b1) = Inr (0, s1, Some (b1[0 := Some v]))"
    using p32 f room(1) by (simp add: SMO_getNodeSeries_def series_one)
  then have s: "\<exists>s1 o1. SMO_getNodeSeries h i a p 1 (Some b1) = Inr (0, s1, Some o1) \<and> o1 ! 0 = Some v"
    using room(1) by auto
  \<comment> \<open>the attribute across the nodes\<close>
  have "\<exists>g' out'. attribute_loop (\<lambda>s k. getNodeValue s p k a) (h\<lparr>file' := Some f\<rparr>) (Nnodes h) 0 b2
          = Inr (h\<lparr>file' := Some g'\<rparr>, out') \<and> content g' = content f
        \<and> length out' = length b2
        \<and> (\<forall>j < length b2. out' ! j = (if 0 \<le> int j \<and> int j < Nnodes h
                then Some (take 4 (drop (nat (node_value_offset h p (int j) a)) (content f)))
                else b2 ! j))"
  proof (rule attribute_loop_values)
    show "getNodeValue (h\<lparr>file' := Some g\<rparr>) p k a
        = read_value_at (h\<lparr>file' := Some g\<rparr>) (node_value_offset h p k a)" for g k
      by (simp add: getNodeValue_def node_value_offset_def period_offset_def)
    show "0 \<le> node_value_offset h p k a \<and> node_value_offset h p k a + 4 \<le> int (length (content f))"
      if "0 \<le> k" "k < Nnodes h" for k
      using vo(2,3) [OF that] by simp
    show "Nnodes h \<le> int (length b2)" using room(2) by simp
  qed simp_all
  then obtain g' out' where
    loop: "attribute_loop (\<lambda>s k. getNodeValue s p k a) h (Nnodes h) 0 b2 = Inr (h\<lparr>file' := Some g'\<rparr>, out')"
    and vals: "\<And>j. j < length b2 \<Longrightarrow> out' ! j = (if 0 \<le> int j \<and> int j < Nnodes h
                then Some (take 4 (drop (nat (node_value_offset h p (int j) a)) (content f)))
                else b2 ! j)"
    by (auto simp: handle_file_same [OF f])
  have "nat i < length b2" using ia(1,2) room(2) by simp
  then have "out' ! nat i = Some v"
    using vals [of "nat i"] ia vo(1) [OF ia(1,2)] by (simp add: v_def x_def add.assoc)
  then have t: "\<exists>s2 o2. SMO_getNodeAttribute h p a (Some b2) = Inr (0, s2, Some o2) \<and> o2 ! nat i = Some v"
    using loop f by (simp add: SMO_getNodeAttribute_def get_attribute_def)
  \<comment> \<open>the result of the node\<close>
  note ro = node_result_offset_slot [OF wf pif ia]
  from read_result_values [OF f ro(2) ro(3) ro(4) ia(3,4) room(3)]
  have r: "\<exists>s3 o3. SMO_getNodeResult h p i (Some b3) = Inr (0, s3, Some o3) \<and> o3 ! nat a = Some v"
    using f by (simp add: SMO_getNodeResult_def ro(1) slot_offset_add v_def x_def)
  from s t r show ?thesis by blast
qed


lemma subcatch_value_offset_slot:
  assumes wf: "well_formed h f" and pif: "period_in_file h f p"
    and ia: "0 \<le> i" "i < Nsubcatch h" "0 \<le> a" "a < SubcatchVars h"
  defines "x \<equiv> i * SubcatchVars h + a"
  shows "subcatch_value_offset (h\<lparr>file' := g\<rparr>) p i a = slot_offset h p x"
    and "0 \<le> slot_offset h p x" and "slot_offset h p x + 4 \<le> int (length (content f))"
proof -
  note nn = products_nonneg [OF wf] and ix = index_slot [OF ia]
  have x: "0 \<le> x" "x + 1 \<le> values_per_period h"
    using nn ix ia by (simp_all add: x_def values_per_period_def)
  from slot_in_file [OF wf pif x] show "0 \<le> slot_offset h p x"
    and "slot_offset h p x + 4 \<le> int (length (content f))" by simp_all
  have "mul32 RECORDSIZE (add32 (mul32 i (SubcatchVars h)) a) = wrap32 (4 * x)"
    unfolding x_def by (simp only: wrap32_simps)
  moreover have "period_offset (h\<lparr>file' := g\<rparr>) p = period_offset h p"
    by (simp add: period_offset_def)
  ultimately show "subcatch_value_offset (h\<lparr>file' := g\<rparr>) p i a = slot_offset h p x"
    using slot_in_file(1,2) [OF wf pif x] by (simp add: subcatch_value_offset_def period_offset_slot)
qed

lemma subcatch_result_offset_slot:
  assumes wf: "well_formed h f" and pif: "period_in_file h f p"
    and ia: "0 \<le> i" "i < Nsubcatch h" "0 \<le> a" "a < SubcatchVars h"
  defines "x \<equiv> i * SubcatchVars h"
  shows "subcatch_result_offset h p i = slot_offset h p x"
    and "0 \<le> slot_offset h p x"
    and "slot_offset h p x + 4 * SubcatchVars h \<le> int (length (content f))"
    and "SubcatchVars h < 2 ^ 32"
proof -
  note nn = products_nonneg [OF wf] and ix = index_slot [OF ia]
  have x: "0 \<le> x" "x + SubcatchVars h \<le> values_per_period h" "0 \<le> SubcatchVars h"
    using nn ix ia by (simp_all add: x_def values_per_period_def)
  from slot_in_file [OF wf pif x] show "0 \<le> slot_offset h p x"
    and "slot_offset h p x + 4 * SubcatchVars h \<le> int (length (content f))" by simp_all
  have "mul32 (mul32 i (SubcatchVars h)) RECORDSIZE = wrap32 (x * 4)"
    unfolding x_def by (simp only: wrap32_simps)
  then show "subcatch_result_offset h p i = slot_offset h p x"
    using slot_in_file(1,2) [OF wf pif x] by (simp add: subcatch_result_offset_def period_offset_slot mult.commute)
  have "in_int32 (BytesPerPeriod h)" "BytesPerPeriod h = 8 + 4 * values_per_period h"
    using wf by (auto simp: well_formed_def)
  with x show "SubcatchVars h < 2 ^ 32" by (simp add: in_int32_def)
qed

lemma subcatch_duality:
  assumes wf: "well_formed h f" and pif: "period_in_file h f p"
    and ia: "0 \<le> i" "i < Nsubcatch h" "0 \<le> a" "a < SubcatchVars h"
    and room: "0 < length b1" "nat (Nsubcatch h) \<le> length b2" "nat (SubcatchVars h) \<le> length b3"
  shows "\<exists>v s1 s2 s3 o1 o2 o3.
           SMO_getSubcatchSeries h i a p 1 (Some b1) = Inr (0, s1, Some o1) \<and>
           SMO_getSubcatchAttribute h p a (Some b2) = Inr (0, s2, Some o2) \<and>
           SMO_getSubcatchResult h p i (Some b3) = Inr (0, s3, Some o3) \<and>
           o1 ! 0 = Some v \<and> o2 ! nat i = Some v \<and> o3 ! nat a = Some v"
proof -
  define x where "x = i * SubcatchVars h"
  define v where "v = take 4 (drop (nat (slot_offset h p (x + a))) (content f))"
  have f: "file' h = Some f" using wf by (simp add: well_formed_def)
  have p32: "in_int32 p" using pif by (simp add: period_in_file_def)
  have vo: "subcatch_value_offset h p k a
        = slot_offset h p (k * SubcatchVars h + a)"
      "0 \<le> subcatch_value_offset h p k a"
      "subcatch_value_offset h p k a + 4 \<le> int (length (content f))"
    if "0 \<le> k" "k < Nsubcatch h" for k
    using subcatch_value_offset_slot(1) [OF wf pif that ia(3,4), of "file' h"]
      subcatch_value_offset_slot(2,3) [OF wf pif that ia(3,4)] by simp_all
  \<comment> \<open>the series of length one\<close>
  have "getSubcatchValue h p i a = Inr (Some v, h\<lparr>file' := Some (f\<lparr>fpos := nat (slot_offset h p (x + a)) + 4\<rparr>)\<rparr>)"
    using vo [OF ia(1,2)] read_value_at_in_file [OF f, of "slot_offset h p (x + a)"]
    by (simp add: getSubcatchValue_def x_def v_def add.assoc)
  then have "\<exists>s1. SMO_getSubcatchSeries h i a p 1 (Some b1) = Inr (0, s1, Some (b1[0 := Some v]))"
    using p32 f room(1) by (simp add: SMO_getSubcatchSeries_def series_one)
  then have s: "\<exists>s1 o1. SMO_getSubcatchSeries h i a p 1 (Some b1) = Inr (0, s1, Some o1) \<and> o1 ! 0 = Some v"
    using room(1) by auto
  \<comment> \<open>the attribute across the subcatchments\<close>
  have "\<exists>g' out'. attribute_loop (\<lambda>s k. getSubcatchValue s p k a) (h\<lparr>file' := Some f\<rparr>) (Nsubcatch h) 0 b2
          = Inr (h\<lparr>file' := Some g'\<rparr>, out') \<and> content g' = content f
        \<and> length out' = length b2
        \<and> (\<forall>j < length b2. out' ! j = (if 0 \<le> int j \<and> int j < Nsubcatch h
                then Some (take 4 (drop (nat (subcatch_value_offset h p (int j) a)) (content f)))
                else b2 ! j))"
  proof (rule attribute_loop_values)
    show "getSubcatchValue (h\<lparr>file' := Some g\<rparr>) p k a
        = read_value_at (h\<lparr>file' := Some g\<rparr>) (subcatch_value_offset h p k a)" for g k
      by (simp add: getSubcatchValue_def subcatch_value_offset_def period_offset_def)
    show "0 \<le> subcatch_value_offset h p k a \<and> subcatch_value_offset h p k a + 4 \<le> int (length (content f))"
      if "0 \<le> k" "k < Nsubcatch h" for k
      using vo(2,3) [OF that] by simp
    show "Nsubcatch h \<le> int (length b2)" using room(2) by simp
  qed simp_all
  then obtain g' out' where
    loop: "attribute_loop (\<lambda>s k. getSubcatchValue s p k a) h (Nsubcatch h) 0 b2 = Inr (h\<lparr>file' := Some g'\<rparr>, out')"
    and vals: "\<And>j. j < length b2 \<Longrightarrow> out' ! j = (if 0 \<le> int j \<and> int j < Nsubcatch h
                then Some (take 4 (drop (nat (subcatch_value_offset h p (int j) a)) (content f)))
                else b2 ! j)"
    by (auto simp: handle_file_same [OF f])
  have "nat i < length b2" using ia(1,2) room(2) by simp
  then have "out' ! nat i = Some v"
    using vals [of "nat i"] ia vo(1) [OF ia(1,2)] by (simp add: v_def x_def add.assoc)
  then have t: "\<exists>s2 o2. SMO_getSubcatchAttribute h p a (Some b2) = Inr (0, s2, Some o2) \<and> o2 ! nat i = Some v"
    using loop f by (simp add: SMO_getSubcatchAttribute_def get_attribute_def)
  \<comment> \<open>the result of the subcatchment\<close>
  note ro = subcatch_result_offset_slot [OF wf pif ia]
  from read_result_values [OF f ro(2) ro(3) ro(4) ia(3,4) room(3)]
  have r: "\<exists>s3 o3. SMO_getSubcatchResult h p i (Some b3) = Inr (0, s3, Some o3) \<and> o3 ! nat a = Some v"
    using f by (simp add: SMO_getSubcatchResult_def ro(1) slot_offset_add v_def x_def)
  from s t r show ?thesis by blast
qed

lemma system_value_offset_slot:
  assumes wf: "well_formed h f" and pif: "period_in_file h f p"
    and a: "0 \<le> a" "a < SysVars h"
  defines "x \<equiv> Nsubcatch h * SubcatchVars h + Nnodes h * NodeVars h + Nlinks h * LinkVars h + a"
  shows "system_value_offset (h\<lparr>file' := g\<rparr>) p a = slot_offset h p x"
    and "0 \<le> slot_offset h p x" and "slot_offset h p x + 4 \<le> int (length (content f))"
proof -
  note nn = products_nonneg [OF wf]
  have x: "0 \<le> x" "x + 1 \<le> values_per_period h"
    using nn a by (simp_all add: x_def values_per_period_def)
  from slot_in_file [OF wf pif x] show "0 \<le> slot_offset h p x"
    and "slot_offset h p x + 4 \<le> int (length (content f))" by simp_all
  have "mul32 RECORDSIZE (add32 (add32 (add32 (mul32 (Nsubcatch h) (SubcatchVars h))
            (mul32 (Nnodes h) (NodeVars h))) (mul32 (Nlinks h) (LinkVars h))) a) = wrap32 (4 * x)"
    unfolding x_def by (simp only: wrap32_simps)
  moreover have "period_offset (h\<lparr>file' := g\<rparr>) p = period_offset h p"
    by (simp add: period_offset_def)
  ultimately show "system_value_offset (h\<lparr>file' := g\<rparr>) p a = slot_offset h p x"
    using slot_in_file(1,2) [OF wf pif x] by (simp add: system_value_offset_def period_offset_slot)
qed

lemma system_result_offset_slot:
  assumes wf: "well_formed h f" and pif: "period_in_file h f p"
  defines "x \<equiv> Nsubcatch h * SubcatchVars h + Nnodes h * NodeVars h + Nlinks h * LinkVars h"
  shows "system_result_offset h p = slot_offset h p x"
    and "0 \<le> slot_offset h p x"
    and "slot_offset h p x + 4 * SysVars h \<le> int (length (content f))"
    and "SysVars h < 2 ^ 32"
proof -
  note nn = products_nonneg [OF wf]
  have x: "0 \<le> x" "x + SysVars h \<le> values_per_period h" "0 \<le> SysVars h"
    using nn by (simp_all add: x_def values_per_period_def)
  from slot_in_file [OF wf pif x] show "0 \<le> slot_offset h p x"
    and "slot_offset h p x + 4 * SysVars h \<le> int (length (content f))" by simp_all
  have "mul32 (add32 (add32 (mul32 (Nsubcatch h) (SubcatchVars h))
            (mul32 (Nnodes h) (NodeVars h))) (mul32 (Nlinks h) (LinkVars h))) RECORDSIZE = wrap32 (x * 4)"
    unfolding x_def by (simp only: wrap32_simps)
  then show "system_result_offset h p = slot_offset h p x"
    using slot_in_file(1,2) [OF wf pif x]
    by (simp add: system_result_offset_def period_offset_slot mult.commute)
  have "in_int32 (BytesPerPeriod h)" "BytesPerPeriod h = 8 + 4 * values_per_period h"
    using wf by (auto simp: well_formed_def)
  with x show "SysVars h < 2 ^ 32" by (simp add: in_int32_def)
qed

lemma system_duality:
  assumes wf: "well_formed h f" and pif: "period_in_file h f p"
    and a: "0 \<le> a" "a < SysVars h"
    and room: "0 < length b1" "0 < length b2" "nat (SysVars h) \<le> length b3"
  shows "\<exists>v s1 s2 s3 o1 o2 o3.
           SMO_getSystemSeries h a p 1 (Some b1) = Inr (0, s1, Some o1) \<and>
           SMO_getSystemAttribute h p a (Some b2) = Inr (0, s2, Some o2) \<and>
           SMO_getSystemResult h p (Some b3) = Inr (0, s3, Some o3) \<and>
           o1 ! 0 = Some v \<and> o2 ! 0 = Some v \<and> o3 ! nat a = Some v"
proof -
  define x where "x = Nsubcatch h * SubcatchVars h + Nnodes h * NodeVars h + Nlinks h * LinkVars h"
  define v where "v = take 4 (drop (nat (slot_offset h p (x + a))) (content f))"
  have f: "file' h = Some f" using wf by (simp add: well_formed_def)
  have p32: "in_int32 p" using pif by (simp add: period_in_file_def)
  have vo: "system_value_offset h p a = slot_offset h p (x + a)"
      "0 \<le> system_value_offset h p a"
      "system_value_offset h p a + 4 \<le> int (length (content f))"
    using system_value_offset_slot(1) [OF wf pif a, of "file' h"]
      system_value_offset_slot(2,3) [OF wf pif a] by (simp_all add: x_def)
  have gv: "getSystemValue h p a
      = Inr (Some v, h\<lparr>file' := Some (f\<lparr>fpos := nat (slot_offset h p (x + a)) + 4\<rparr>)\<rparr>)"
    using vo read_value_at_in_file [OF f, of "slot_offset h p (x + a)"]
    by (simp add: getSystemValue_def v_def)
  then have "\<exists>s1. SMO_getSystemSeries h a p 1 (Some b1) = Inr (0, s1, Some (b1[0 := Some v]))"
    using p32 f room(1) by (simp add: SMO_getSystemSeries_def series_one)
  then have s: "\<exists>s1 o1. SMO_getSystemSeries h a p 1 (Some b1) = Inr (0, s1, Some o1) \<and> o1 ! 0 = Some v"
    using room(1) by auto
  have "\<exists>s2. SMO_getSystemAttribute h p a (Some b2) = Inr (0, s2, Some (b2[0 := Some v]))"
    using gv f room(2) by (simp add: SMO_getSystemAttribute_def store_def)
  then have t: "\<exists>s2 o2. SMO_getSystemAttribute h p a (Some b2) = Inr (0, s2, Some o2) \<and> o2 ! 0 = Some v"
    using room(2) by auto
  note ro = system_result_offset_slot [OF wf pif]
  from read_result_values [OF f ro(2) ro(3) ro(4) a room(3)]
  have r: "\<exists>s3 o3. SMO_getSystemResult h p (Some b3) = Inr (0, s3, Some o3) \<and> o3 ! nat a = Some v"
    using f by (simp add: SMO_getSystemResult_def ro(1) slot_offset_add v_def x_def)
  from s t r show ?thesis by blast
qed

text \<open>
  C1. Let the handle describe its file and let period \<open>p\<close> lie in the file. Then for each
  kind (subcatchment, node, link, system), each entity index \<open>i\<close> valid for the kind and
  each attribute ordinal \<open>a\<close> of the kind, and out-arrays with room for what each call
  stores (one value for the series, one per entity for the attribute, one per variable
  for the result), the series call of length 1 at \<open>p\<close>, the attribute call at \<open>p\<close> and the
  result call at \<open>p\<close> all return 0, and the value in slot 0 of the series array is a
  defined value equal to slot \<open>i\<close> of the attribute array (slot 0 for the system) and to
  slot \<open>a\<close> of the result array.
\<close>

theorem series_attribute_result_agree:
  assumes "well_formed h f" and "period_in_file h f p"
  shows
    "(0 \<le> i \<and> i < Nsubcatch h \<and> 0 \<le> a \<and> a < SubcatchVars h \<and>
      0 < length b1 \<and> nat (Nsubcatch h) \<le> length b2 \<and> nat (SubcatchVars h) \<le> length b3 \<longrightarrow>
        (\<exists>v s1 s2 s3 o1 o2 o3.
           SMO_getSubcatchSeries h i a p 1 (Some b1) = Inr (0, s1, Some o1) \<and>
           SMO_getSubcatchAttribute h p a (Some b2) = Inr (0, s2, Some o2) \<and>
           SMO_getSubcatchResult h p i (Some b3) = Inr (0, s3, Some o3) \<and>
           o1 ! 0 = Some v \<and> o2 ! nat i = Some v \<and> o3 ! nat a = Some v)) \<and>
     (0 \<le> i \<and> i < Nnodes h \<and> 0 \<le> a \<and> a < NodeVars h \<and>
      0 < length b1 \<and> nat (Nnodes h) \<le> length b2 \<and> nat (NodeVars h) \<le> length b3 \<longrightarrow>
        (\<exists>v s1 s2 s3 o1 o2 o3.
           SMO_getNodeSeries h i a p 1 (Some b1) = Inr (0, s1, Some o1) \<and>
           SMO_getNodeAttribute h p a (Some b2) = Inr (0, s2, Some o2) \<and>
           SMO_getNodeResult h p i (Some b3) = Inr (0, s3, Some o3) \<and>
           o1 ! 0 = Some v \<and> o2 ! nat i = Some v \<and> o3 ! nat a = Some v)) \<and>
     (0 \<le> i \<and> i < Nlinks h \<and> 0 \<le> a \<and> a < LinkVars h \<and>
      0 < length b1 \<and> nat (Nlinks h) \<le> length b2 \<and> nat (LinkVars h) \<le> length b3 \<longrightarrow>
        (\<exists>v s1 s2 s3 o1 o2 o3.
           SMO_getLinkSeries h i a p 1 (Some b1) = Inr (0, s1, Some o1) \<and>
           SMO_getLinkAttribute h p a (Some b2) = Inr (0, s2, Some o2) \<and>
           SMO_getLinkResult h p i (Some b3) = Inr (0, s3, Some o3) \<and>
           o1 ! 0 = Some v \<and> o2 ! nat i = Some v \<and> o3 ! nat a = Some v)) \<and>
     (0 \<le> a \<and> a < SysVars h \<and>
      0 < length b1 \<and> 0 < length b2 \<and> nat (SysVars h) \<le> length b3 \<longrightarrow>
        (\<exists>v s1 s2 s3 o1 o2 o3.
           SMO_getSystemSeries h a p 1 (Some b1) = Inr (0, s1, Some o1) \<and>
           SMO_getSystemAttribute h p a (Some b2) = Inr (0, s2, Some o2) \<and>
           SMO_getSystemResult h p (Some b3) = Inr (0, s3, Some o3) \<and>
           o1 ! 0 = Some v \<and> o2 ! 0 = Some v \<and> o3 ! nat a = Some v))"
  using subcatch_duality [OF assms, of i a b1 b2 b3] node_duality [OF assms, of i a b1 b2 b3]
    link_duality [OF assms, of i a b1 b2 b3] system_duality [OF assms, of a b1 b2 b3]
  by blast

lemma example_well_formed:
  "well_formed example_handle \<lparr>content = example_file, fpos = 175\<rparr>"
  "period_in_file example_handle \<lparr>content = example_file, fpos = 175\<rparr> 1"
  by (simp_all add: well_formed_def period_in_file_def example_handle_def values_per_period_def
      in_int32_def example_file_def)

theorem series_attribute_result_agree_witness:
  "well_formed example_handle \<lparr>content = example_file, fpos = 175\<rparr> \<and>
   period_in_file example_handle \<lparr>content = example_file, fpos = 175\<rparr> 1 \<and>
   (0 :: int) \<le> 0 \<and> 0 < Nsubcatch example_handle \<and> 0 < SubcatchVars example_handle \<and>
   0 < Nnodes example_handle \<and> 0 < NodeVars example_handle \<and>
   0 < Nlinks example_handle \<and> 0 < LinkVars example_handle \<and> 0 < SysVars example_handle \<and>
   0 < length no_values \<and>
   nat (Nsubcatch example_handle) \<le> length no_values \<and>
   nat (SubcatchVars example_handle) \<le> length no_values \<and>
   nat (Nnodes example_handle) \<le> length no_values \<and>
   nat (NodeVars example_handle) \<le> length no_values \<and>
   nat (Nlinks example_handle) \<le> length no_values \<and>
   nat (LinkVars example_handle) \<le> length no_values \<and>
   nat (SysVars example_handle) \<le> length no_values \<and>
   (\<exists>v s1 s2 s3 o1 o2 o3.
      SMO_getSubcatchSeries example_handle 0 0 1 1 (Some no_values) = Inr (0, s1, Some o1) \<and>
      SMO_getSubcatchAttribute example_handle 1 0 (Some no_values) = Inr (0, s2, Some o2) \<and>
      SMO_getSubcatchResult example_handle 1 0 (Some no_values) = Inr (0, s3, Some o3) \<and>
      o1 ! 0 = Some v \<and> o2 ! nat 0 = Some v \<and> o3 ! nat 0 = Some v) \<and>
   (\<exists>v s1 s2 s3 o1 o2 o3.
      SMO_getNodeSeries example_handle 0 0 1 1 (Some no_values) = Inr (0, s1, Some o1) \<and>
      SMO_getNodeAttribute example_handle 1 0 (Some no_values) = Inr (0, s2, Some o2) \<and>
      SMO_getNodeResult example_handle 1 0 (Some no_values) = Inr (0, s3, Some o3) \<and>
      o1 ! 0 = Some v \<and> o2 ! nat 0 = Some v \<and> o3 ! nat 0 = Some v) \<and>
   (\<exists>v s1 s2 s3 o1 o2 o3.
      SMO_getLinkSeries example_handle 0 0 1 1 (Some no_values) = Inr (0, s1, Some o1) \<and>
      SMO_getLinkAttribute example_handle 1 0 (Some no_values) = Inr (0, s2, Some o2) \<and>
      SMO_getLinkResult example_handle 1 0 (Some no_values) = Inr (0, s3, Some o3) \<and>
      o1 ! 0 = Some v \<and> o2 ! nat 0 = Some v \<and> o3 ! nat 0 = Some v) \<and>
   (\<exists>v s1 s2 s3 o1 o2 o3.
      SMO_getSystemSeries example_handle 0 1 1 (Some no_values) = Inr (0, s1, Some o1) \<and>
      SMO_getSystemAttribute example_handle 1 0 (Some no_values) = Inr (0, s2, Some o2) \<and>
      SMO_getSystemResult example_handle 1 (Some no_values) = Inr (0, s3, Some o3) \<and>
      o1 ! 0 = Some v \<and> o2 ! 0 = Some v \<and> o3 ! nat 0 = Some v)"
proof -
  have valid: "(0 :: int) \<le> 0" "0 < Nsubcatch example_handle" "0 < SubcatchVars example_handle"
    "0 < Nnodes example_handle" "0 < NodeVars example_handle"
    "0 < Nlinks example_handle" "0 < LinkVars example_handle" "0 < SysVars example_handle"
    by (simp_all add: example_handle_def)
  have room: "0 < length no_values"
    "nat (Nsubcatch example_handle) \<le> length no_values"
    "nat (SubcatchVars example_handle) \<le> length no_values"
    "nat (Nnodes example_handle) \<le> length no_values"
    "nat (NodeVars example_handle) \<le> length no_values"
    "nat (Nlinks example_handle) \<le> length no_values"
    "nat (LinkVars example_handle) \<le> length no_values"
    "nat (SysVars example_handle) \<le> length no_values"
    by (simp_all add: example_handle_def no_values_def)
  from series_attribute_result_agree [OF example_well_formed,
      of 0 0 no_values no_values no_values] example_well_formed valid room
  show ?thesis by blast
qed

subsection \<open>The offset of a link value\<close>

text \<open>
  C2. Let \<open>SMO_open\<close> have succeeded with handle \<open>h0\<close>, and let \<open>h\<close> be that handle in any
  later state: the stream at any position \<open>q\<close>, the element names loaded or not (no call
  changes anything else). Then \<open>BytesPerPeriod\<close> is
  \<open>8 + 4 * (n_sub * v_sub + n_node * v_node + n_link * v_link + v_sys)\<close>, and \<open>getLinkValue\<close> for
  period \<open>p\<close>, link \<open>i\<close> and attribute \<open>a\<close> seeks to
  \<open>ResultsPos + p * BytesPerPeriod + 8 + 4 * (n_sub * v_sub + n_node * v_node + i * v_link + a)\<close>
  and returns exactly the four bytes of the file at that offset, leaving the stream just
  behind them. Hypotheses: the two \<^verbatim>\<open>int\<close> expressions have values that fit an \<^verbatim>\<open>int\<close>, and the
  four bytes lie in the file.
\<close>

theorem link_value_read_offset:
  fixes h0 h :: SMOutputAPI and p i a :: int
  defines "off \<equiv> ResultsPos h + p * (8 + 4 * values_per_period h) + 8
                   + 4 * (Nsubcatch h * SubcatchVars h + Nnodes h * NodeVars h + i * LinkVars h + a)"
  assumes opened: "SMO_open fs s0 path = Inr (0, Some h0)" and f0: "file' h0 = Some f0"
    and later: "h = h0\<lparr>file' := Some (f0\<lparr>fpos := q\<rparr>), elementNames := names\<rparr>"
    and no_overflow: "in_int32 (8 + 4 * values_per_period h)"
      "in_int32 (4 * (Nsubcatch h * SubcatchVars h + Nnodes h * NodeVars h + i * LinkVars h + a))"
    and in_file: "0 \<le> off" "off + 4 \<le> int (length (content f0))"
      "int (length (content f0)) < 2 ^ 63"
  shows "BytesPerPeriod h = 8 + 4 * values_per_period h \<and>
         link_value_offset h p i a = off \<and>
         getLinkValue h p i a
           = Inr (Some (take 4 (drop (nat off) (content f0))),
                  h\<lparr>file' := Some (f0\<lparr>fpos := nat off + 4\<rparr>)\<rparr>)"
proof -
  from open_success [OF opened] obtain s where "read_parameters s = Inr h0" by blast
  from read_parameters_bytes [OF this] no_overflow(1)
  have bpp: "BytesPerPeriod h = 8 + 4 * values_per_period h"
    by (simp add: bytes_per_period_exact values_per_period_def later)
  have "in_int64 off" using in_file by (simp add: in_int64_def)
  then have lo: "link_value_offset h p i a = off"
    using no_overflow(2) by (simp add: link_value_offset_exact bpp off_def)
  have f: "file' h = Some (f0\<lparr>fpos := q\<rparr>)" by (simp add: later)
  have "getLinkValue h p i a = read_value_at h off" by (simp add: getLinkValue_def lo)
  with read_value_at_in_file [OF f in_file(1)] in_file(2) bpp lo show ?thesis by simp
qed

text \<open>The example handle after an earlier read has left the stream at 227.\<close>

theorem link_value_read_offset_witness:
  "SMO_open example_fs closed_handle ''example.out'' = Inr (0, Some example_handle) \<and>
   file' example_handle = Some \<lparr>content = example_file, fpos = 175\<rparr> \<and>
   in_int32 (8 + 4 * values_per_period example_handle) \<and>
   in_int32 (4 * (Nsubcatch example_handle * SubcatchVars example_handle
                  + Nnodes example_handle * NodeVars example_handle
                  + 0 * LinkVars example_handle + 1)) \<and>
   length example_file = 255 \<and>
   BytesPerPeriod (example_handle\<lparr>file' := Some \<lparr>content = example_file, fpos = 227\<rparr>\<rparr>) = 28 \<and>
   link_value_offset (example_handle\<lparr>file' := Some \<lparr>content = example_file, fpos = 227\<rparr>\<rparr>) 1 0 1
     = 223 \<and>
   getLinkValue (example_handle\<lparr>file' := Some \<lparr>content = example_file, fpos = 227\<rparr>\<rparr>) 1 0 1
     = Inr (Some [23, 0, 0, 0],
            example_handle\<lparr>file' := Some \<lparr>content = example_file, fpos = 227\<rparr>\<rparr>)"
proof -
  define h where "h = example_handle\<lparr>file' := Some \<lparr>content = example_file, fpos = 227\<rparr>\<rparr>"
  have f: "file' example_handle = Some \<lparr>content = example_file, fpos = 175\<rparr>"
    by (simp add: example_handle_def)
  have later: "h = example_handle\<lparr>file' := Some (\<lparr>content = example_file, fpos = 175\<rparr>\<lparr>fpos := 227\<rparr>),
                                 elementNames := None\<rparr>"
    by (simp add: h_def example_handle_def)
  have vp: "values_per_period h = 5" "values_per_period example_handle = 5"
    by (simp_all add: values_per_period_def example_handle_def h_def)
  have slot: "Nsubcatch h * SubcatchVars h + Nnodes h * NodeVars h + 0 * LinkVars h + 1 = 3"
    "Nsubcatch example_handle * SubcatchVars example_handle
       + Nnodes example_handle * NodeVars example_handle + 0 * LinkVars example_handle + 1 = 3"
    by (simp_all add: example_handle_def h_def)
  have rp: "ResultsPos h = 175" by (simp add: example_handle_def h_def)
  have len: "length example_file = 255" by (simp add: example_file_def)
  have bytes: "take 4 (drop 223 example_file) = [23, 0, 0, 0]" by (simp add: example_file_def)
  have ov: "in_int32 (8 + 4 * values_per_period h)"
    "in_int32 (4 * (Nsubcatch h * SubcatchVars h + Nnodes h * NodeVars h + 0 * LinkVars h + 1))"
    unfolding vp slot by (simp_all add: in_int32_def)
  have res: "BytesPerPeriod h = 28 \<and> link_value_offset h 1 0 1 = 223 \<and>
      getLinkValue h 1 0 1 = Inr (Some [23, 0, 0, 0], h)"
    using link_value_read_offset [OF open_example f later ov, of 1]
    unfolding vp slot rp by (simp add: len bytes h_def)
  have ov': "in_int32 (8 + 4 * values_per_period example_handle)"
    "in_int32 (4 * (Nsubcatch example_handle * SubcatchVars example_handle
                  + Nnodes example_handle * NodeVars example_handle
                  + 0 * LinkVars example_handle + 1))"
    unfolding vp slot by (simp_all add: in_int32_def)
  from res open_example f ov' len show ?thesis unfolding h_def by simp
qed

end
